theory Spec2Isabelle
  imports Complex_Main
begin

section \<open>Statement parser of Mastercardtrack: a shallow embedding of \<^verbatim>\<open>backend/pdf_parser.py\<close>\<close>

text \<open>
  The module reads the text of a monthly credit-card statement and returns its transactions,
  its balances and the taxes it infers. What the embedding takes from outside the module:
  \<^item> Text is a \<^typ>\<open>string\<close>, read as ASCII. A character outside ASCII is an opaque
    symbol: no digit, no letter, no whitespace, and with no other case.
  \<^item> A regular expression of the source is a function that returns the groups of the match
    that Python's \<^verbatim>\<open>re\<close> finds; the comment of each function gives the pattern.
  \<^item> Python's \<^verbatim>\<open>float\<close> is an IEEE 754 double: a rational that 53 bits represent, or
    one of the three special values. Every operation rounds to the nearest double, ties to
    even. The two zeros of IEEE 754 are one value here (\<^verbatim>\<open>-0.0 == 0.0\<close> is true in
    Python, and the parser never divides).
  \<^item> An exception is a value: \<open>None\<close> where the source catches it at once, \<open>Inl\<close> of a
    sum otherwise.
  \<^item> A document is the list of the texts of its pages, as
    \<^verbatim>\<open>page.extract_text()\<close> returns them. The messages that the source prints are left
    out.
\<close>

subsection \<open>Characters and the string methods of Python\<close>

definition is_digit :: "char \<Rightarrow> bool" where
  \<comment> \<open>\<^verbatim>\<open>\d\<close>\<close>
  "is_digit c = (c \<in> set ''0123456789'')"

definition is_alpha :: "char \<Rightarrow> bool" where
  \<comment> \<open>\<^verbatim>\<open>[A-Za-z]\<close>\<close>
  "is_alpha c = (c \<in> set ''ABCDEFGHIJKLMNOPQRSTUVWXYZabcdefghijklmnopqrstuvwxyz'')"

definition is_space :: "char \<Rightarrow> bool" where
  \<comment> \<open>\<^verbatim>\<open>\s\<close> and the characters \<^verbatim>\<open>str.strip()\<close> removes: tab, newline, vertical tab,
      form feed, carriage return, the four separators 0x1C to 0x1F, and the space\<close>
  "is_space c = (c \<in> {CHR 0x09, CHR 0x0A, CHR 0x0B, CHR 0x0C, CHR 0x0D,
                       CHR 0x1C, CHR 0x1D, CHR 0x1E, CHR 0x1F, CHR 0x20})"

definition is_amount_char :: "char \<Rightarrow> bool" where
  \<comment> \<open>\<^verbatim>\<open>[\d.,]\<close>\<close>
  "is_amount_char c = (is_digit c \<or> c = CHR ''.'' \<or> c = CHR '','')"

definition lower_char :: "char \<Rightarrow> char" where
  "lower_char c =
     (case map_of (zip ''ABCDEFGHIJKLMNOPQRSTUVWXYZ'' ''abcdefghijklmnopqrstuvwxyz'') c of
        Some d \<Rightarrow> d | None \<Rightarrow> c)"

definition upper_char :: "char \<Rightarrow> char" where
  "upper_char c =
     (case map_of (zip ''abcdefghijklmnopqrstuvwxyz'' ''ABCDEFGHIJKLMNOPQRSTUVWXYZ'') c of
        Some d \<Rightarrow> d | None \<Rightarrow> c)"

definition lower :: "string \<Rightarrow> string" where
  \<comment> \<open>\<^verbatim>\<open>str.lower()\<close>\<close>
  "lower s = map lower_char s"

definition upper :: "string \<Rightarrow> string" where
  \<comment> \<open>\<^verbatim>\<open>str.upper()\<close>\<close>
  "upper s = map upper_char s"

definition strip :: "string \<Rightarrow> string" where
  \<comment> \<open>\<^verbatim>\<open>str.strip()\<close>\<close>
  "strip s = rev (dropWhile is_space (rev (dropWhile is_space s)))"

fun startswith :: "string \<Rightarrow> string \<Rightarrow> bool" where
  \<comment> \<open>\<^verbatim>\<open>s.startswith(p)\<close>, as \<open>startswith p s\<close>\<close>
  "startswith [] s = True"
| "startswith (p # ps) [] = False"
| "startswith (p # ps) (c # cs) = (p = c \<and> startswith ps cs)"

fun contains :: "string \<Rightarrow> string \<Rightarrow> bool" where
  \<comment> \<open>\<^verbatim>\<open>p in s\<close>, as \<open>contains p s\<close>\<close>
  "contains p [] = (p = [])"
| "contains p (c # cs) = (startswith p (c # cs) \<or> contains p cs)"

definition replace :: "char \<Rightarrow> string \<Rightarrow> string \<Rightarrow> string" where
  \<comment> \<open>\<^verbatim>\<open>s.replace(c, r)\<close> for a one-character \<^verbatim>\<open>c\<close>, as \<open>replace c r s\<close>\<close>
  "replace c r s = concat (map (\<lambda>x. if x = c then r else [x]) s)"

fun split_lines :: "string \<Rightarrow> string list" where
  \<comment> \<open>\<^verbatim>\<open>s.split('\n')\<close>\<close>
  "split_lines [] = [[]]"
| "split_lines (c # cs) =
     (if c = CHR 0x0A then [] # split_lines cs
      else (case split_lines cs of l # ls \<Rightarrow> (c # l) # ls | [] \<Rightarrow> [[c]]))"

fun before_first :: "string \<Rightarrow> string \<Rightarrow> string" where
  \<comment> \<open>\<^verbatim>\<open>s.split(sep)[0]\<close> for a non-empty \<^verbatim>\<open>sep\<close>, as \<open>before_first sep s\<close>\<close>
  "before_first sep [] = []"
| "before_first sep (c # cs) = (if startswith sep (c # cs) then [] else c # before_first sep cs)"

fun rfind_from :: "string \<Rightarrow> nat \<Rightarrow> string \<Rightarrow> int \<Rightarrow> int" where
  \<comment> \<open>scan left to right from index \<open>i\<close>, keeping the last index where \<open>p\<close> starts\<close>
  "rfind_from p i [] best = (if p = [] then int i else best)"
| "rfind_from p i (c # cs) best =
     rfind_from p (Suc i) cs (if startswith p (c # cs) then int i else best)"

definition rfind :: "string \<Rightarrow> string \<Rightarrow> int" where
  \<comment> \<open>\<^verbatim>\<open>s.rfind(p)\<close>, as \<open>rfind p s\<close>: the highest index where \<open>p\<close> starts, or \<open>-1\<close>\<close>
  "rfind p s = rfind_from p 0 s (- 1)"

definition slice_to :: "string \<Rightarrow> int \<Rightarrow> string" where
  \<comment> \<open>\<^verbatim>\<open>s[:k]\<close>: a negative \<open>k\<close> counts from the end\<close>
  "slice_to s k = (if k < 0 then take (nat (int (length s) + k)) s else take (nat k) s)"

definition digit_value :: "char \<Rightarrow> int" where
  "digit_value c = (case map_of (zip ''0123456789'' [0, 1, 2, 3, 4, 5, 6, 7, 8, 9]) c of
                      Some d \<Rightarrow> d | None \<Rightarrow> 0)"

definition digits_value :: "string \<Rightarrow> int" where
  \<comment> \<open>\<^verbatim>\<open>int(s)\<close> on a string of decimal digits\<close>
  "digits_value s = foldl (\<lambda>n c. 10 * n + digit_value c) 0 s"

subsection \<open>Python's float\<close>

datatype pyfloat = Fin rat | PInf | NInf | NaN

function ilog2 :: "int \<Rightarrow> int" where
  \<comment> \<open>\<open>\<lfloor>log\<^sub>2 n\<rfloor>\<close> for a positive \<open>n\<close>\<close>
  "ilog2 n = (if n < 2 then 0 else ilog2 (n div 2) + 1)"
  by pat_completeness auto
termination
  by (relation "measure nat") auto

declare ilog2.simps [simp del]

definition pow2 :: "int \<Rightarrow> rat" where
  "pow2 e = (if 0 \<le> e then 2 ^ nat e else 1 / 2 ^ nat (- e))"

definition pow10 :: "int \<Rightarrow> rat" where
  "pow10 e = (if 0 \<le> e then 10 ^ nat e else 1 / 10 ^ nat (- e))"

definition floor_log2 :: "rat \<Rightarrow> int" where
  \<comment> \<open>\<open>\<lfloor>log\<^sub>2 a\<rfloor>\<close> for a positive \<open>a\<close>\<close>
  "floor_log2 a =
     (if 1 \<le> a then ilog2 \<lfloor>a\<rfloor> else - (ilog2 (\<lceil>1 / a\<rceil> - 1) + 1))"

definition round_half_even :: "rat \<Rightarrow> int" where
  "round_half_even x =
     (let f = \<lfloor>x\<rfloor>; d = x - of_int f
      in if d < 1 / 2 then f else if 1 / 2 < d then f + 1 else if even f then f else f + 1)"

definition round_to_double :: "rat \<Rightarrow> pyfloat" where
  \<comment> \<open>the double nearest to \<open>r\<close>, ties to even: 53 bits of precision, the smallest exponent
      of a bit \<open>-1074\<close>, and an infinity from \<open>2\<^sup>1\<^sup>0\<^sup>2\<^sup>4\<close> on\<close>
  "round_to_double r =
     (if r = 0 then Fin 0
      else let a = \<bar>r\<bar>;
               q = max (floor_log2 a - 52) (- 1074);
               v = of_int (round_half_even (a / pow2 q)) * pow2 q
           in if 0 < v \<and> 1024 \<le> floor_log2 v then (if r < 0 then NInf else PInf)
              else Fin (if r < 0 then - v else v))"

fun fneg :: "pyfloat \<Rightarrow> pyfloat" where
  "fneg (Fin a) = Fin (- a)"
| "fneg PInf = NInf"
| "fneg NInf = PInf"
| "fneg NaN = NaN"

fun fadd :: "pyfloat \<Rightarrow> pyfloat \<Rightarrow> pyfloat" where
  "fadd (Fin a) (Fin b) = round_to_double (a + b)"
| "fadd NaN y = NaN"
| "fadd x NaN = NaN"
| "fadd PInf NInf = NaN"
| "fadd NInf PInf = NaN"
| "fadd PInf y = PInf"
| "fadd NInf y = NInf"
| "fadd x PInf = PInf"
| "fadd x NInf = NInf"

definition fsub :: "pyfloat \<Rightarrow> pyfloat \<Rightarrow> pyfloat" where
  "fsub x y = fadd x (fneg y)"

definition py_sum :: "pyfloat list \<Rightarrow> pyfloat" where
  \<comment> \<open>\<^verbatim>\<open>sum(xs)\<close>: the additions are made left to right, from \<open>0\<close>, each one
      rounded (CPython up to 3.11; from 3.12 on \<^verbatim>\<open>sum\<close> carries a correction term for
      floats, which can change the last bits of a total of two amounts or more)\<close>
  "py_sum xs = foldl fadd (Fin 0) xs"

definition is_double :: "pyfloat \<Rightarrow> bool" where
  \<comment> \<open>a finite value is one that the rounding leaves as it is\<close>
  "is_double x = (case x of Fin v \<Rightarrow> round_to_double v = Fin v | _ \<Rightarrow> True)"

definition is_c_space :: "char \<Rightarrow> bool" where
  \<comment> \<open>the whitespace that \<^verbatim>\<open>float\<close> drops around an ASCII text: that of C's
      \<^verbatim>\<open>isspace\<close>, without the separators 0x1C to 0x1F\<close>
  "is_c_space c = (c \<in> {CHR 0x09, CHR 0x0A, CHR 0x0B, CHR 0x0C, CHR 0x0D, CHR 0x20})"

definition c_strip :: "string \<Rightarrow> string" where
  "c_strip s = rev (dropWhile is_c_space (rev (dropWhile is_c_space s)))"

text \<open>
  \<^verbatim>\<open>float(s)\<close> on a string: surrounding whitespace is dropped; an underscore may stand
  between two digits only; then an optional sign and either \<^verbatim>\<open>inf\<close>, \<^verbatim>\<open>infinity\<close>,
  \<^verbatim>\<open>nan\<close> in any case, or digits with an optional point and an optional exponent, at
  least one digit before the exponent. Anything else raises \<^verbatim>\<open>ValueError\<close>, which is
  the value \<open>None\<close> here.
\<close>

fun drop_underscores :: "char \<Rightarrow> string \<Rightarrow> string option" where
  "drop_underscores prev [] = (if prev = CHR ''_'' then None else Some [])"
| "drop_underscores prev (c # cs) =
     (if c = CHR ''_'' then (if is_digit prev then drop_underscores c cs else None)
      else if prev = CHR ''_'' \<and> \<not> is_digit c then None
      else map_option ((#) c) (drop_underscores c cs))"

definition parse_exponent :: "string \<Rightarrow> int option" where
  "parse_exponent s =
     (case s of
        [] \<Rightarrow> Some 0
      | c # t \<Rightarrow>
          if c = CHR ''e'' \<or> c = CHR ''E'' then
            (case t of
               [] \<Rightarrow> None
             | d # u \<Rightarrow>
                 if d = CHR ''-'' then
                   (if u \<noteq> [] \<and> list_all is_digit u then Some (- digits_value u) else None)
                 else if d = CHR ''+'' then
                   (if u \<noteq> [] \<and> list_all is_digit u then Some (digits_value u) else None)
                 else (if list_all is_digit t then Some (digits_value t) else None))
          else None)"

definition parse_decimal :: "string \<Rightarrow> rat option" where
  "parse_decimal s =
     (let ds1 = takeWhile is_digit s;
          r1 = dropWhile is_digit s;
          ds2 = (case r1 of [] \<Rightarrow> [] | c # t \<Rightarrow> if c = CHR ''.'' then takeWhile is_digit t else []);
          r2 = (case r1 of [] \<Rightarrow> [] | c # t \<Rightarrow> if c = CHR ''.'' then dropWhile is_digit t else r1)
      in if ds1 @ ds2 = [] then None
         else (case parse_exponent r2 of
                 None \<Rightarrow> None
               | Some e \<Rightarrow> Some (of_int (digits_value (ds1 @ ds2)) * pow10 (e - int (length ds2)))))"

definition parse_unsigned :: "string \<Rightarrow> pyfloat option" where
  "parse_unsigned s =
     (if lower s = ''inf'' \<or> lower s = ''infinity'' then Some PInf
      else if lower s = ''nan'' then Some NaN
      else map_option round_to_double (parse_decimal s))"

definition py_float :: "string \<Rightarrow> pyfloat option" where
  "py_float text =
     (case drop_underscores (CHR 0x00) (c_strip text) of
        None \<Rightarrow> None
      | Some s \<Rightarrow>
          (case s of
             [] \<Rightarrow> None
           | c # t \<Rightarrow>
               if c = CHR ''-'' then map_option fneg (parse_unsigned t)
               else if c = CHR ''+'' then parse_unsigned t
               else parse_unsigned s))"

subsection \<open>The amount parser\<close>

definition amount_text :: "string \<Rightarrow> string" where
  \<comment> \<open>the text that \<^verbatim>\<open>parse_amount\<close> hands to \<^verbatim>\<open>float\<close>\<close>
  "amount_text text0 =
     (let text1 = strip text0;
          text2 = strip (replace CHR ''-'' [] (replace CHR '')'' [] (replace CHR ''('' [] text1)))
      in if CHR '','' \<in> set text2 \<and> CHR ''.'' \<in> set text2
         then replace CHR '','' ''.'' (replace CHR ''.'' [] text2)
         else if CHR '','' \<in> set text2 then replace CHR '','' ''.'' text2
         else text2)"

definition parse_amount :: "string \<Rightarrow> pyfloat" where
  "parse_amount text0 =
     (if text0 = [] \<or> strip text0 = [] then Fin 0
      else let is_negative = (startswith ''-'' (strip text0) \<or> startswith ''('' (strip text0))
           in (case py_float (amount_text text0) of
                 Some v \<Rightarrow> if is_negative then fneg v else v
               | None \<Rightarrow> Fin 0))"

subsection \<open>The date parser\<close>

datatype py_error = ValueError

record datetime =
  dt_year :: int
  dt_month :: int
  dt_day :: int

definition is_leap :: "int \<Rightarrow> bool" where
  "is_leap y = (y mod 4 = 0 \<and> (y mod 100 \<noteq> 0 \<or> y mod 400 = 0))"

definition days_in_month :: "int \<Rightarrow> int \<Rightarrow> int" where
  "days_in_month y m =
     (if m = 2 then (if is_leap y then 29 else 28)
      else if m = 4 \<or> m = 6 \<or> m = 9 \<or> m = 11 then 30 else 31)"

definition mk_datetime :: "int \<Rightarrow> int \<Rightarrow> int \<Rightarrow> py_error + datetime" where
  \<comment> \<open>\<^verbatim>\<open>datetime(year, month, day)\<close>, which raises \<^verbatim>\<open>ValueError\<close> out of range\<close>
  "mk_datetime y m d =
     (if 1 \<le> y \<and> y \<le> 9999 \<and> 1 \<le> m \<and> m \<le> 12 \<and> 1 \<le> d \<and> d \<le> days_in_month y m
      then Inr \<lparr>dt_year = y, dt_month = m, dt_day = d\<rparr>
      else Inl ValueError)"

definition months :: "string \<rightharpoonup> int" where
  "months = map_of
     [(''ene'', 1), (''feb'', 2), (''mar'', 3), (''abr'', 4), (''may'', 5), (''jun'', 6),
      (''jul'', 7), (''ago'', 8), (''sep'', 9), (''oct'', 10), (''nov'', 11), (''dic'', 12)]"

definition match_date :: "string \<Rightarrow> (string \<times> string \<times> string \<times> string) option" where
  \<comment> \<open>\<^verbatim>\<open>(\d{1,2})-([A-Za-z]{3})-(\d{2})\<close> at the start of \<open>s\<close>: the three groups and
      what follows the match. One digit is taken as the day only when a hyphen follows it.\<close>
  "match_date s =
     (let d = takeWhile is_digit (take 2 s);
          r1 = drop (length d) s;
          m = take 3 (drop 1 r1);
          r2 = drop 4 r1;
          y = take 2 (drop 1 r2)
      in if d \<noteq> [] \<and> startswith ''-'' r1 \<and> length m = 3 \<and> list_all is_alpha m \<and>
            startswith ''-'' r2 \<and> length y = 2 \<and> list_all is_digit y
         then Some (d, m, y, drop 3 r2)
         else None)"

definition parse_date :: "string \<Rightarrow> datetime option" where
  "parse_date text0 =
     (case match_date (strip text0) of
        None \<Rightarrow> None
      | Some (g1, g2, g3, r) \<Rightarrow>
          let day = digits_value g1;
              month_str = lower g2;
              year = digits_value g3 + 2000;
              month = (case months month_str of Some m \<Rightarrow> m | None \<Rightarrow> 1)
          in (case mk_datetime year month day of
                Inr d \<Rightarrow> Some d
              | Inl e \<Rightarrow> None))"

subsection \<open>Subtotal rows and the header fields\<close>

definition skip_patterns :: "string list" where
  "skip_patterns =
     [''total titular'', ''total adicional'', ''saldo actual'', ''pago minimo'',
      ''detalle del mes'', ''su pago'', ''transfer financ'']"

definition is_subtotal_row :: "string \<Rightarrow> bool" where
  "is_subtotal_row text0 = list_ex (\<lambda>pattern. contains pattern (lower text0)) skip_patterns"

fun re_search :: "(string \<Rightarrow> 'a option) \<Rightarrow> string \<Rightarrow> 'a option" where
  \<comment> \<open>\<^verbatim>\<open>re.search\<close>: the match at the leftmost position where the pattern matches\<close>
  "re_search m [] = m []"
| "re_search m (c # cs) = (case m (c # cs) of Some g \<Rightarrow> Some g | None \<Rightarrow> re_search m cs)"

definition skip_literal :: "string \<Rightarrow> string \<Rightarrow> string option" where
  \<comment> \<open>a literal of a pattern compiled with \<^verbatim>\<open>re.IGNORECASE\<close>: what follows it\<close>
  "skip_literal p s =
     (if length p \<le> length s \<and> lower (take (length p) s) = lower p
      then Some (drop (length p) s) else None)"

definition skip_spaces :: "string \<Rightarrow> string" where
  \<comment> \<open>\<^verbatim>\<open>\s*\<close> before a character that is no whitespace\<close>
  "skip_spaces s = dropWhile is_space s"

definition match_saldo_actual :: "string \<Rightarrow> (string \<times> string) option" where
  \<comment> \<open>\<^verbatim>\<open>SALDO ACTUAL\s*\$?\s*([\d.,]+)\s*U\$S\s*([\d.,]+)\<close> at the start of \<open>s\<close>. No two
      neighbouring parts of the pattern share a character, so the greedy match is the only one.\<close>
  "match_saldo_actual s =
     (case skip_literal ''SALDO ACTUAL'' s of
        None \<Rightarrow> None
      | Some r1 \<Rightarrow>
          let r2 = skip_spaces r1;
              r3 = skip_spaces (if startswith ''$'' r2 then drop 1 r2 else r2);
              g1 = takeWhile is_amount_char r3
          in if g1 = [] then None
             else (case skip_literal ''U$S'' (skip_spaces (dropWhile is_amount_char r3)) of
                     None \<Rightarrow> None
                   | Some r4 \<Rightarrow>
                       let g2 = takeWhile is_amount_char (skip_spaces r4)
                       in if g2 = [] then None else Some (g1, g2)))"

definition extract_saldo_actual :: "string \<Rightarrow> pyfloat \<times> pyfloat" where
  "extract_saldo_actual text0 =
     (case re_search match_saldo_actual text0 of
        Some (g1, g2) \<Rightarrow> (parse_amount g1, parse_amount g2)
      | None \<Rightarrow> (Fin 0, Fin 0))"

definition match_saldo_pendiente :: "string \<Rightarrow> (string \<times> string) option" where
  \<comment> \<open>\<^verbatim>\<open>SALDO PENDIENTE\s+([\d.,]+)\s+([\d.,]+)\<close> at the start of \<open>s\<close>\<close>
  "match_saldo_pendiente s =
     (case skip_literal ''SALDO PENDIENTE'' s of
        None \<Rightarrow> None
      | Some r1 \<Rightarrow>
          let r2 = skip_spaces r1;
              g1 = takeWhile is_amount_char r2;
              r3 = dropWhile is_amount_char r2;
              g2 = takeWhile is_amount_char (skip_spaces r3)
          in if takeWhile is_space r1 = [] \<or> g1 = [] \<or> takeWhile is_space r3 = [] \<or> g2 = []
             then None else Some (g1, g2))"

definition extract_saldo_pendiente :: "string \<Rightarrow> pyfloat \<times> pyfloat" where
  "extract_saldo_pendiente text0 =
     (case re_search match_saldo_pendiente text0 of
        Some (g1, g2) \<Rightarrow> (parse_amount g1, parse_amount g2)
      | None \<Rightarrow> (Fin 0, Fin 0))"

definition date_groups :: "string \<Rightarrow> string option" where
  \<comment> \<open>\<^verbatim>\<open>\s*(\d{1,2})-([A-Za-z]{3})-(\d{2})\<close> at the start of \<open>s\<close>, the groups joined again
      by hyphens as the extractors do\<close>
  "date_groups s =
     (case match_date (skip_spaces s) of
        None \<Rightarrow> None
      | Some (g1, g2, g3, r) \<Rightarrow> Some (g1 @ ''-'' @ g2 @ ''-'' @ g3))"

definition match_statement_date :: "string \<Rightarrow> string option" where
  \<comment> \<open>\<^verbatim>\<open>ESTADO DE CUENTA AL:\s*(\d{1,2})-([A-Za-z]{3})-(\d{2})\<close>\<close>
  "match_statement_date s =
     (case skip_literal ''ESTADO DE CUENTA AL:'' s of None \<Rightarrow> None | Some r \<Rightarrow> date_groups r)"

definition extract_statement_date :: "string \<Rightarrow> datetime option \<times> int \<times> int" where
  "extract_statement_date text0 =
     (case re_search match_statement_date text0 of
        None \<Rightarrow> (None, 0, 0)
      | Some g \<Rightarrow>
          (case parse_date g of
             Some date_obj \<Rightarrow> (Some date_obj, dt_month date_obj, dt_year date_obj)
           | None \<Rightarrow> (None, 0, 0)))"

definition match_proximo :: "string \<Rightarrow> string \<Rightarrow> string option" where
  \<comment> \<open>\<^verbatim>\<open>PROXIMO\s*CIERRE:\s*(\d{1,2})-([A-Za-z]{3})-(\d{2})\<close>, and the same with
      \<^verbatim>\<open>VENCIMIENTO:\<close>\<close>
  "match_proximo label s =
     (case skip_literal ''PROXIMO'' s of
        None \<Rightarrow> None
      | Some r1 \<Rightarrow>
          (case skip_literal label (skip_spaces r1) of None \<Rightarrow> None | Some r2 \<Rightarrow> date_groups r2))"

definition extract_proximo_cierre :: "string \<Rightarrow> datetime option" where
  "extract_proximo_cierre text0 =
     (case re_search (match_proximo ''CIERRE:'') text0 of
        Some g \<Rightarrow> parse_date g
      | None \<Rightarrow> None)"

definition extract_proximo_vencimiento :: "string \<Rightarrow> datetime option" where
  "extract_proximo_vencimiento text0 =
     (case re_search (match_proximo ''VENCIMIENTO:'') text0 of
        Some g \<Rightarrow> parse_date g
      | None \<Rightarrow> None)"

subsection \<open>The transaction line parser\<close>

record Transaction =
  date :: datetime
  merchant :: string
  coupon_number :: string
  amount_pesos :: pyfloat
  amount_dollars :: pyfloat
  is_dollar :: bool

definition match_transaction_line :: "string \<Rightarrow> (string \<times> string) option" where
  \<comment> \<open>\<^verbatim>\<open>^(\d{1,2}-[A-Za-z]{3}-\d{2})\s+(.+)\<close> on a stripped line: the date token, and the
      text after the whitespace up to the end of its line. A stripped line does not end in
      whitespace, so a character that is no whitespace follows the run.\<close>
  "match_transaction_line s =
     (case match_date s of
        None \<Rightarrow> None
      | Some (g1, g2, g3, r) \<Rightarrow>
          let g = takeWhile (\<lambda>c. c \<noteq> CHR 0x0A) (skip_spaces r)
          in if takeWhile is_space r = [] \<or> g = [] then None
             else Some (g1 @ ''-'' @ g2 @ ''-'' @ g3, g))"

definition match_number :: "string \<Rightarrow> string option" where
  \<comment> \<open>\<^verbatim>\<open>-?[\d]+[.,][\d]+\<close> at the start of \<open>s\<close>: the text matched\<close>
  "match_number s =
     (let sign = (if startswith ''-'' s then ''-'' else []);
          r1 = drop (length sign) s;
          ds1 = takeWhile is_digit r1;
          r2 = dropWhile is_digit r1;
          ds2 = takeWhile is_digit (drop 1 r2)
      in if ds1 \<noteq> [] \<and> (startswith ''.'' r2 \<or> startswith '','' r2) \<and> ds2 \<noteq> []
         then Some (sign @ ds1 @ take 1 r2 @ ds2)
         else None)"

fun findall_from :: "nat \<Rightarrow> string \<Rightarrow> string list" where
  \<comment> \<open>\<^verbatim>\<open>re.findall\<close> of that pattern; \<open>k\<close> characters of the previous match are still to
      be passed over\<close>
  "findall_from k [] = []"
| "findall_from (Suc k) (c # cs) = findall_from k cs"
| "findall_from 0 (c # cs) =
     (case match_number (c # cs) of
        Some m \<Rightarrow> m # findall_from (length m - 1) cs
      | None \<Rightarrow> findall_from 0 cs)"

definition findall_numbers :: "string \<Rightarrow> string list" where
  "findall_numbers s = findall_from 0 s"

definition escaped :: "string \<Rightarrow> string" where
  \<comment> \<open>the text that \<^verbatim>\<open>re.escape(amount_str.replace('.', r'\.').replace(',', r'\,'))\<close> matches:
      the replacements put a backslash before each separator, and \<^verbatim>\<open>re.escape\<close> makes the
      pattern match that backslash as a character\<close>
  "escaped amount_str =
     replace CHR '','' [CHR 0x5C, CHR '',''] (replace CHR ''.'' [CHR 0x5C, CHR ''.''] amount_str)"

definition match_coupon :: "string \<Rightarrow> string \<Rightarrow> string option" where
  \<comment> \<open>\<^verbatim>\<open>\s(\d{5})\s+\<close> and then the literal \<open>lit\<close>, at the start of \<open>s\<close>: group 1. The
      literal begins with a digit or a minus sign, so the whitespace run is taken whole.\<close>
  "match_coupon lit s =
     (let g = take 5 (drop 1 s);
          r = drop 6 s
      in if takeWhile is_space (take 1 s) \<noteq> [] \<and> length g = 5 \<and> list_all is_digit g \<and>
            takeWhile is_space r \<noteq> [] \<and> startswith lit (skip_spaces r)
         then Some g else None)"

fun collapse_spaces :: "bool \<Rightarrow> string \<Rightarrow> string" where
  \<comment> \<open>\<^verbatim>\<open>re.sub(r'\s+', ' ', s)\<close>, as \<open>collapse_spaces False s\<close>; the flag says that the
      character before was whitespace\<close>
  "collapse_spaces prev [] = []"
| "collapse_spaces prev (c # cs) =
     (if is_space c then (if prev then collapse_spaces True cs else CHR '' '' # collapse_spaces True cs)
      else c # collapse_spaces False cs)"

definition match_trailing_coupon :: "string \<Rightarrow> bool" where
  \<comment> \<open>\<^verbatim>\<open>\s+\d{5}$\<close> at the start of \<open>s\<close>; \<^verbatim>\<open>$\<close> is the end of the text or the place
      before a last newline\<close>
  "match_trailing_coupon s =
     (let r = skip_spaces s
      in takeWhile is_space s \<noteq> [] \<and> length (take 5 r) = 5 \<and> list_all is_digit (take 5 r) \<and>
         (drop 5 r = [] \<or> drop 5 r = [CHR 0x0A]))"

fun remove_trailing_coupon :: "string \<Rightarrow> string" where
  \<comment> \<open>\<^verbatim>\<open>re.sub(r'\s+\d{5}$', '', s)\<close>\<close>
  "remove_trailing_coupon [] = []"
| "remove_trailing_coupon (c # cs) =
     (if match_trailing_coupon (c # cs) then drop 5 (skip_spaces (c # cs))
      else c # remove_trailing_coupon cs)"

definition parse_transaction_line :: "string \<Rightarrow> Transaction option" where
  "parse_transaction_line line =
     (if is_subtotal_row line then None
      else case match_transaction_line (strip line) of
        None \<Rightarrow> None
      | Some (date_str, g2) \<Rightarrow>
          (case parse_date date_str of
             None \<Rightarrow> None
           | Some d \<Rightarrow>
               let rest = strip g2;
                   dollar = contains ''USA,'' (upper rest);
                   numbers = findall_numbers rest
               in if numbers = [] then None
                  else
                    let amount_str = last numbers;
                        amount = parse_amount amount_str;
                        coupon = (case re_search (match_coupon (escaped amount_str)) rest of
                                    Some g \<Rightarrow> g | None \<Rightarrow> []);
                        merchant0 = (if coupon \<noteq> [] then strip (before_first coupon rest)
                                     else strip (slice_to rest (rfind amount_str rest)));
                        merchant1 = strip (collapse_spaces False merchant0);
                        merchant2 = remove_trailing_coupon merchant1
                    in if dollar
                       then Some \<lparr>date = d, merchant = merchant2, coupon_number = coupon,
                                  amount_pesos = Fin 0, amount_dollars = amount, is_dollar = True\<rparr>
                       else Some \<lparr>date = d, merchant = merchant2, coupon_number = coupon,
                                  amount_pesos = amount, amount_dollars = Fin 0, is_dollar = False\<rparr>))"

subsection \<open>The statement\<close>

record StatementData =
  saldo_actual_pesos :: pyfloat
  saldo_actual_dolares :: pyfloat
  transactions :: "Transaction list"
  impuestos_pesos :: pyfloat
  impuestos_dolares :: pyfloat
  total_transactions_pesos :: pyfloat
  total_transactions_dolares :: pyfloat
  saldo_pendiente_pesos :: pyfloat
  saldo_pendiente_dolares :: pyfloat
  month :: int
  year :: int
  statement_date :: "datetime option"
  proximo_cierre :: "datetime option"
  proximo_vencimiento :: "datetime option"

text \<open>
  A document is the list of what \<^verbatim>\<open>page.extract_text()\<close> returns for its pages, \<open>None\<close>
  for a page with no text.
\<close>

definition page_text :: "string option \<Rightarrow> string" where
  \<comment> \<open>\<^verbatim>\<open>page.extract_text() or ""\<close>\<close>
  "page_text p = (case p of None \<Rightarrow> [] | Some t \<Rightarrow> t)"

definition starts_with_date :: "string \<Rightarrow> bool" where
  \<comment> \<open>\<^verbatim>\<open>re.match(r'^\d{1,2}-[A-Za-z]{3}-\d{2}\s', line)\<close>\<close>
  "starts_with_date line =
     (case match_date line of
        None \<Rightarrow> False
      | Some (g1, g2, g3, r) \<Rightarrow> takeWhile is_space (take 1 r) \<noteq> [])"

fun collect_transactions :: "string list \<Rightarrow> Transaction list" where
  "collect_transactions [] = []"
| "collect_transactions (l # ls) =
     (let line = strip l
      in if line = [] then collect_transactions ls
         else if starts_with_date line then
           (case parse_transaction_line line of
              Some t \<Rightarrow> t # collect_transactions ls
            | None \<Rightarrow> collect_transactions ls)
         else collect_transactions ls)"

definition parse_mastercard_pdf :: "string option list \<Rightarrow> StatementData" where
  "parse_mastercard_pdf pages =
     (let full_text = concat (map (\<lambda>p. page_text p @ [CHR 0x0A]) pages);
          first_page = (case pages of [] \<Rightarrow> None | p # ps \<Rightarrow> Some (page_text p));
          saldo = (case first_page of None \<Rightarrow> (Fin 0, Fin 0) | Some t \<Rightarrow> extract_saldo_actual t);
          saldo_pendiente =
            (case first_page of None \<Rightarrow> (Fin 0, Fin 0) | Some t \<Rightarrow> extract_saldo_pendiente t);
          stmt = (case first_page of None \<Rightarrow> (None, 0, 0) | Some t \<Rightarrow> extract_statement_date t);
          cierre = (case first_page of None \<Rightarrow> None | Some t \<Rightarrow> extract_proximo_cierre t);
          vencimiento = (case first_page of None \<Rightarrow> None | Some t \<Rightarrow> extract_proximo_vencimiento t);
          txs = collect_transactions (split_lines full_text);
          total_pesos = py_sum (map amount_pesos txs);
          total_dolares = py_sum (map amount_dollars txs)
      in \<lparr>saldo_actual_pesos = fst saldo,
          saldo_actual_dolares = snd saldo,
          transactions = txs,
          impuestos_pesos = fsub (fsub (fst saldo) total_pesos) (fst saldo_pendiente),
          impuestos_dolares = fsub (fsub (snd saldo) total_dolares) (snd saldo_pendiente),
          total_transactions_pesos = total_pesos,
          total_transactions_dolares = total_dolares,
          saldo_pendiente_pesos = fst saldo_pendiente,
          saldo_pendiente_dolares = snd saldo_pendiente,
          month = fst (snd stmt),
          year = snd (snd stmt),
          statement_date = fst stmt,
          proximo_cierre = cierre,
          proximo_vencimiento = vencimiento\<rparr>)"

section \<open>Properties\<close>

subsection \<open>Strings\<close>

lemma startswith_append: "startswith p (p @ v)"
  by (induction p) auto

lemma startswith_contains: "startswith p s \<Longrightarrow> contains p s"
  by (cases s; cases p) auto

lemma contains_append: "contains p (u @ p @ v)"
proof (induction u)
  case Nil
  show ?case by (simp add: startswith_contains startswith_append)
next
  case (Cons a u)
  then show ?case by simp
qed

lemma label_contains:
  assumes "text0 = u @ w @ v" and "lower w = p"
  shows "contains p (lower text0)"
proof -
  have "lower text0 = lower u @ p @ lower v" using assms by (simp add: lower_def)
  then show ?thesis by (simp only: contains_append)
qed

lemma startswith_set: "startswith p s \<Longrightarrow> set p \<subseteq> set s"
  by (induction p s rule: startswith.induct) auto

lemma set_strip: "set (strip s) \<subseteq> set s"
proof -
  have "set (strip s) \<subseteq> set (rev (dropWhile is_space s))"
    by (auto simp: strip_def dest: set_dropWhileD)
  then show ?thesis by (auto dest: set_dropWhileD)
qed

lemma digit_not_space: "is_digit c \<Longrightarrow> \<not> is_space c"
  unfolding is_digit_def is_space_def by (elim disjE | simp)+

lemma point_not_space: "\<not> is_space CHR ''.''"
  by (simp add: is_space_def)

lemma c_space_is_space: "is_c_space c \<Longrightarrow> is_space c"
  by (auto simp: is_c_space_def is_space_def)

lemma c_strip_no_space: "\<forall>c \<in> set s. \<not> is_space c \<Longrightarrow> c_strip s = s"
proof -
  assume "\<forall>c \<in> set s. \<not> is_space c"
  then have a: "\<forall>c \<in> set s. \<not> is_c_space c" using c_space_is_space by blast
  then have "dropWhile is_c_space s = s" by (cases s) auto
  moreover from a have "\<forall>c \<in> set (rev s). \<not> is_c_space c" by simp
  then have "dropWhile is_c_space (rev s) = rev s" by (cases "rev s") auto
  ultimately show ?thesis by (simp add: c_strip_def)
qed

lemma strip_no_space: "\<forall>c \<in> set s. \<not> is_space c \<Longrightarrow> strip s = s"
proof -
  assume a: "\<forall>c \<in> set s. \<not> is_space c"
  then have "dropWhile is_space s = s" by (cases s) auto
  moreover from a have "\<forall>c \<in> set (rev s). \<not> is_space c" by simp
  then have "dropWhile is_space (rev s) = rev s" by (cases "rev s") auto
  ultimately show ?thesis by (simp add: strip_def)
qed

lemma replace_absent: "c \<notin> set s \<Longrightarrow> replace c r s = s"
  by (induction s) (auto simp: replace_def)

lemma replace_delete_set: "set (replace c [] s) \<subseteq> set s"
  by (induction s) (auto simp: replace_def)

lemma re_search_Some:
  "re_search m s = Some g \<Longrightarrow> \<exists>u v. s = u @ v \<and> m v = Some g"
proof (induction s)
  case Nil
  then show ?case by simp
next
  case (Cons c cs)
  show ?case
  proof (cases "m (c # cs)")
    case None
    with Cons.prems have "re_search m cs = Some g" by simp
    then obtain u v where "cs = u @ v" "m v = Some g" using Cons.IH by blast
    then have "c # cs = (c # u) @ v \<and> m v = Some g" by simp
    then show ?thesis by blast
  next
    case (Some a)
    with Cons.prems have "c # cs = [] @ (c # cs) \<and> m (c # cs) = Some g" by simp
    then show ?thesis by blast
  qed
qed

lemma skip_literal_Some:
  "skip_literal p s = Some r \<Longrightarrow> s = take (length p) s @ r \<and> lower (take (length p) s) = lower p"
  by (auto simp: skip_literal_def split: if_splits)

subsection \<open>Digits\<close>

lemma digit_value_bounds: "0 \<le> digit_value c \<and> digit_value c \<le> 9"
  by (simp add: digit_value_def)

lemma foldl_digits_bounds:
  "0 \<le> n \<Longrightarrow> 0 \<le> foldl (\<lambda>n c. 10 * n + digit_value c) n s \<and>
     foldl (\<lambda>n c. 10 * n + digit_value c) n s < (n + 1) * 10 ^ length s"
proof (induction s arbitrary: n)
  case Nil
  then show ?case by simp
next
  case (Cons c s)
  let ?f = "foldl (\<lambda>n c. 10 * n + digit_value c) (10 * n + digit_value c) s"
  have b: "0 \<le> digit_value c \<and> digit_value c \<le> 9" by (rule digit_value_bounds)
  then have "0 \<le> 10 * n + digit_value c" using Cons.prems by simp
  from Cons.IH [OF this]
  have ge: "0 \<le> ?f" and lt: "?f < (10 * n + digit_value c + 1) * 10 ^ length s" by simp_all
  have "10 * n + digit_value c + 1 \<le> (n + 1) * 10" using b by simp
  then have "(10 * n + digit_value c + 1) * 10 ^ length s \<le> ((n + 1) * 10) * 10 ^ length s"
    by (rule mult_right_mono) simp
  with lt have "?f < ((n + 1) * 10) * 10 ^ length s" by (rule less_le_trans)
  then have "?f < (n + 1) * 10 ^ length (c # s)" by (simp add: algebra_simps)
  with ge show ?case by simp
qed

lemma digits_value_bounds: "0 \<le> digits_value s \<and> digits_value s < 10 ^ length s"
  using foldl_digits_bounds [of 0 s] by (simp add: digits_value_def)

lemma digits_value_append:
  "digits_value (a @ b) = digits_value a * 10 ^ length b + digits_value b"
proof -
  define f where "f = (\<lambda>n c. 10 * n + digit_value c)"
  have step: "foldl f n b = n * 10 ^ length b + foldl f 0 b" for n
  proof (induction b arbitrary: n)
    case Nil
    show ?case by simp
  next
    case (Cons x xs)
    have "foldl f n (x # xs) = (10 * n + digit_value x) * 10 ^ length xs + foldl f 0 xs"
      using Cons.IH [of "10 * n + digit_value x"] by (simp add: f_def)
    moreover have "foldl f 0 (x # xs) = digit_value x * 10 ^ length xs + foldl f 0 xs"
      using Cons.IH [of "digit_value x"] by (simp add: f_def)
    ultimately show ?case by (simp add: algebra_simps)
  qed
  have "foldl f 0 (a @ b) = foldl f (foldl f 0 a) b"
    by simp
  also have "\<dots> = foldl f 0 a * 10 ^ length b + foldl f 0 b"
    by (rule step)
  finally show ?thesis unfolding digits_value_def f_def .
qed

subsection \<open>Lines of the statement format\<close>

lemma line_puppis:
  "parse_transaction_line ''30-Nov-25 PUPPIS 02842 46500,00'' =
     Some \<lparr>date = \<lparr>dt_year = 2025, dt_month = 11, dt_day = 30\<rparr>, merchant = ''PUPPIS'',
           coupon_number = [], amount_pesos = Fin 46500, amount_dollars = Fin 0,
           is_dollar = False\<rparr>"
  by code_simp

lemma line_puppis_shape:
  "CHR 0x5C \<notin> set ''30-Nov-25 PUPPIS 02842 46500,00''"
  by simp

lemma line_zero:
  "parse_transaction_line ''26-Nov-25 X 0,00'' =
     Some \<lparr>date = \<lparr>dt_year = 2025, dt_month = 11, dt_day = 26\<rparr>, merchant = ''X'',
           coupon_number = [], amount_pesos = Fin 0, amount_dollars = Fin 0,
           is_dollar = False\<rparr>"
  by code_simp

lemma line_google:
  "parse_transaction_line ''26-Nov-25 GOOGLE *YouTube (USA,ARS, 600,00) 00761 0,41'' =
     Some \<lparr>date = \<lparr>dt_year = 2025, dt_month = 11, dt_day = 26\<rparr>,
           merchant = ''GOOGLE *YouTube (USA,ARS, 600,00)'', coupon_number = [],
           amount_pesos = Fin 0, amount_dollars = Fin (7385903388887613 / 18014398509481984),
           is_dollar = True\<rparr>"
  by code_simp

lemma match_google:
  "match_transaction_line (strip ''26-Nov-25 GOOGLE *YouTube (USA,ARS, 600,00) 00761 0,41'') =
     Some (''26-Nov-25'', ''GOOGLE *YouTube (USA,ARS, 600,00) 00761 0,41'')"
  by code_simp

lemma findall_google:
  "findall_numbers (strip ''GOOGLE *YouTube (USA,ARS, 600,00) 00761 0,41'') =
     [''600,00'', ''0,41'']"
  by code_simp

text \<open>
  A coupon is found when the line itself holds the amount with a backslash before its
  separator.
\<close>

lemma line_with_backslash:
  "parse_transaction_line (''26-Nov-25 X 12345 0'' @ [CHR 0x5C] @ '',41 0,41'') =
     Some \<lparr>date = \<lparr>dt_year = 2025, dt_month = 11, dt_day = 26\<rparr>, merchant = ''X'',
           coupon_number = ''12345'',
           amount_pesos = Fin (7385903388887613 / 18014398509481984), amount_dollars = Fin 0,
           is_dollar = False\<rparr>"
  by code_simp

text \<open>
  The merchant is cut where \<^verbatim>\<open>rfind\<close> finds the text of the amount, which can lie after
  the place of the match: in \<^verbatim>\<open>5,5,5\<close> the pattern matches the first three characters, and
  the text \<^verbatim>\<open>5,5\<close> is found again two characters later.
\<close>

lemma line_overlapping_amount:
  "parse_transaction_line ''26-Nov-25 5,5,5'' =
     Some \<lparr>date = \<lparr>dt_year = 2025, dt_month = 11, dt_day = 26\<rparr>, merchant = ''5,'',
           coupon_number = [], amount_pesos = Fin (11 / 2), amount_dollars = Fin 0,
           is_dollar = False\<rparr>"
  by code_simp

subsection \<open>Subtotal rows\<close>

text \<open>
  C7. A line that contains \<^verbatim>\<open>SALDO ACTUAL\<close>, in any mix of upper and lower case, gives no
  transaction, whatever stands before and after the phrase.
\<close>

theorem saldo_actual_line_is_no_transaction:
  assumes "line = u @ w @ v" and "lower w = ''saldo actual''"
  shows "parse_transaction_line line = None"
proof -
  have "lower line = lower u @ ''saldo actual'' @ lower v"
    using assms by (simp add: lower_def)
  then have "contains ''saldo actual'' (lower line)"
    by (simp only: contains_append)
  then have "is_subtotal_row line"
    by (simp add: is_subtotal_row_def skip_patterns_def)
  then show ?thesis
    by (simp add: parse_transaction_line_def)
qed

theorem saldo_actual_line_is_no_transaction_witness:
  "parse_transaction_line ''26-Nov-25 Saldo Actual 02842 46500,00'' = None"
proof -
  have "''26-Nov-25 Saldo Actual 02842 46500,00'' = ''26-Nov-25 '' @ ''Saldo Actual'' @ '' 02842 46500,00''"
    by simp
  moreover have "lower ''Saldo Actual'' = ''saldo actual''"
    by code_simp
  ultimately show ?thesis
    by (rule saldo_actual_line_is_no_transaction)
qed

subsection \<open>The two amount fields\<close>

text \<open>
  C10. In every transaction that the line parser returns, the amount field of the other
  currency is exactly \<open>0.0\<close>: \<open>amount_pesos\<close> when \<open>is_dollar\<close> is true, \<open>amount_dollars\<close>
  when it is false.
\<close>

theorem other_currency_amount_is_zero:
  "parse_transaction_line line = Some t \<Longrightarrow>
     (is_dollar t \<longrightarrow> amount_pesos t = Fin 0) \<and> (\<not> is_dollar t \<longrightarrow> amount_dollars t = Fin 0)"
  by (auto simp: parse_transaction_line_def Let_def split: if_splits option.splits prod.splits)

theorem other_currency_amount_is_zero_witness:
  "parse_transaction_line ''30-Nov-25 PUPPIS 02842 46500,00'' =
     Some \<lparr>date = \<lparr>dt_year = 2025, dt_month = 11, dt_day = 30\<rparr>, merchant = ''PUPPIS'',
           coupon_number = [], amount_pesos = Fin 46500, amount_dollars = Fin 0,
           is_dollar = False\<rparr> \<and>
   amount_dollars \<lparr>date = \<lparr>dt_year = 2025, dt_month = 11, dt_day = 30\<rparr>, merchant = ''PUPPIS'',
           coupon_number = [], amount_pesos = Fin 46500, amount_dollars = Fin 0,
           is_dollar = False\<rparr> = Fin 0"
  using other_currency_amount_is_zero [OF line_puppis] line_puppis by simp

text \<open>
  C2, as the code has it. When the last number of the line does not parse to zero, exactly
  one of \<open>amount_pesos\<close> and \<open>amount_dollars\<close> is non-zero, and \<open>is_dollar\<close> is true
  if and only if \<open>amount_dollars\<close> is the non-zero one. (The parser also returns a
  transaction for a line whose amount is zero; both fields are zero then.)
\<close>

theorem one_amount_is_non_zero:
  assumes "parse_transaction_line line = Some t"
    and "match_transaction_line (strip line) = Some (date_str, g2)"
    and "parse_amount (last (findall_numbers (strip g2))) \<noteq> Fin 0"
  shows "(amount_pesos t \<noteq> Fin 0) \<noteq> (amount_dollars t \<noteq> Fin 0) \<and>
         (is_dollar t \<longleftrightarrow> amount_dollars t \<noteq> Fin 0)"
  using assms
  by (auto simp: parse_transaction_line_def Let_def split: if_splits option.splits prod.splits)

theorem one_amount_is_non_zero_witness:
  "parse_amount (last (findall_numbers (strip ''GOOGLE *YouTube (USA,ARS, 600,00) 00761 0,41''))) \<noteq> Fin 0 \<and>
   amount_pesos \<lparr>date = \<lparr>dt_year = 2025, dt_month = 11, dt_day = 26\<rparr>,
           merchant = ''GOOGLE *YouTube (USA,ARS, 600,00)'', coupon_number = [],
           amount_pesos = Fin 0, amount_dollars = Fin (7385903388887613 / 18014398509481984),
           is_dollar = True\<rparr> = Fin 0 \<and>
   amount_dollars \<lparr>date = \<lparr>dt_year = 2025, dt_month = 11, dt_day = 26\<rparr>,
           merchant = ''GOOGLE *YouTube (USA,ARS, 600,00)'', coupon_number = [],
           amount_pesos = Fin 0, amount_dollars = Fin (7385903388887613 / 18014398509481984),
           is_dollar = True\<rparr> \<noteq> Fin 0"
proof -
  have nz: "parse_amount (last (findall_numbers (strip ''GOOGLE *YouTube (USA,ARS, 600,00) 00761 0,41''))) \<noteq> Fin 0"
    by code_simp
  show ?thesis
    using one_amount_is_non_zero [OF line_google match_google nz] nz by simp
qed

text \<open>
  The line \<^verbatim>\<open>26-Nov-25 X 0,00\<close> is a transaction of the parser, and both of its amount
  fields are zero: not exactly one of them is non-zero.
\<close>

theorem zero_amount_line_counterexample:
  "parse_transaction_line ''26-Nov-25 X 0,00'' =
     Some \<lparr>date = \<lparr>dt_year = 2025, dt_month = 11, dt_day = 26\<rparr>, merchant = ''X'',
           coupon_number = [], amount_pesos = Fin 0, amount_dollars = Fin 0,
           is_dollar = False\<rparr> \<and>
   \<not> ((amount_pesos \<lparr>date = \<lparr>dt_year = 2025, dt_month = 11, dt_day = 26\<rparr>, merchant = ''X'',
           coupon_number = [], amount_pesos = Fin 0, amount_dollars = Fin 0,
           is_dollar = False\<rparr> \<noteq> Fin 0) \<noteq>
        (amount_dollars \<lparr>date = \<lparr>dt_year = 2025, dt_month = 11, dt_day = 26\<rparr>, merchant = ''X'',
           coupon_number = [], amount_pesos = Fin 0, amount_dollars = Fin 0,
           is_dollar = False\<rparr> \<noteq> Fin 0))"
  using line_zero by simp

subsection \<open>The last number of the line\<close>

text \<open>
  C6. The amount of a transaction is the last match of the number pattern in what follows
  the date: for \<^verbatim>\<open>GOOGLE *YouTube (USA,ARS, 600,00) 00761 0,41\<close> it is \<open>0.41\<close>, not
  \<open>600.00\<close>.
\<close>

theorem amount_is_the_last_number:
  assumes "parse_transaction_line line = Some t"
    and "match_transaction_line (strip line) = Some (date_str, g2)"
  shows "findall_numbers (strip g2) \<noteq> [] \<and>
         (if is_dollar t then amount_dollars t else amount_pesos t) =
           parse_amount (last (findall_numbers (strip g2)))"
  using assms
  by (auto simp: parse_transaction_line_def Let_def split: if_splits option.splits prod.splits)

theorem amount_is_the_last_number_witness:
  "findall_numbers (strip ''GOOGLE *YouTube (USA,ARS, 600,00) 00761 0,41'') = [''600,00'', ''0,41''] \<and>
   map_option amount_dollars
     (parse_transaction_line ''26-Nov-25 GOOGLE *YouTube (USA,ARS, 600,00) 00761 0,41'') =
     Some (parse_amount ''0,41'') \<and>
   parse_amount ''0,41'' = round_to_double (41 / 100) \<and>
   round_to_double (41 / 100) \<noteq> round_to_double 600"
proof -
  have "parse_amount ''0,41'' = round_to_double (41 / 100)" by code_simp
  moreover have "round_to_double (41 / 100) \<noteq> round_to_double 600" by code_simp
  ultimately show ?thesis
    using amount_is_the_last_number [OF line_google match_google] line_google findall_google
    by simp
qed

subsection \<open>Dates\<close>

lemma match_date_year_length: "match_date s = Some (g1, g2, g3, r) \<Longrightarrow> length g3 = 2"
  by (auto simp: match_date_def Let_def split: if_splits)

text \<open>
  C3, as the code has it. When the text has the shape of a date and its three letters are none
  of the twelve month tokens, the date parser takes the month to be 1: it returns the date of
  that day of January of the year \<open>2000 + YY\<close> when the day is between 1 and 31, and no
  date otherwise. It raises nothing: the \<^verbatim>\<open>ValueError\<close> of the date constructor is the
  result \<open>None\<close>.
\<close>

theorem unknown_month_is_january:
  assumes "match_date (strip text0) = Some (g1, g2, g3, r)" and "months (lower g2) = None"
  shows "parse_date text0 =
           (if 1 \<le> digits_value g1 \<and> digits_value g1 \<le> 31
            then Some \<lparr>dt_year = digits_value g3 + 2000, dt_month = 1, dt_day = digits_value g1\<rparr>
            else None)"
proof -
  have "length g3 = 2" using assms(1) by (rule match_date_year_length)
  then have "0 \<le> digits_value g3 \<and> digits_value g3 < 100"
    using digits_value_bounds [of g3] by simp
  then show ?thesis
    using assms by (simp add: parse_date_def mk_datetime_def days_in_month_def Let_def)
qed

theorem unknown_month_is_january_witness:
  "match_date (strip ''31-Dec-24'') = Some (''31'', ''Dec'', ''24'', []) \<and>
   months (lower ''Dec'') = None \<and>
   parse_date ''31-Dec-24'' = Some \<lparr>dt_year = 2024, dt_month = 1, dt_day = 31\<rparr>"
proof -
  have m: "match_date (strip ''31-Dec-24'') = Some (''31'', ''Dec'', ''24'', [])" by code_simp
  have n: "months (lower ''Dec'') = None" by code_simp
  have "digits_value ''31'' = 31" "digits_value ''24'' = 24" by code_simp+
  then show ?thesis using unknown_month_is_january [OF m n] m n by simp
qed

text \<open>
  \<^verbatim>\<open>Xyz\<close> is none of the twelve month tokens, and \<^verbatim>\<open>26-Xyz-25\<close> is parsed to a date all
  the same.
\<close>

theorem unknown_month_counterexample:
  "months (lower ''Xyz'') = None \<and>
   parse_date ''26-Xyz-25'' = Some \<lparr>dt_year = 2025, dt_month = 1, dt_day = 26\<rparr>"
  by code_simp

subsection \<open>Amounts\<close>

text \<open>
  C5. The amount parser maps \<^verbatim>\<open>1.234,56\<close> to \<open>1234.56\<close>, \<^verbatim>\<open>123,45\<close> to \<open>123.45\<close>,
  \<^verbatim>\<open>(500,00)\<close> and \<^verbatim>\<open>-500,00\<close> to \<open>-500.0\<close>, and the empty string, \<^verbatim>\<open>abc\<close> and every
  text of which \<^verbatim>\<open>float\<close> raises \<^verbatim>\<open>ValueError\<close> to \<open>0.0\<close>. It raises nothing: the
  \<^verbatim>\<open>ValueError\<close> is the only exception of \<^verbatim>\<open>float\<close> on a string, and it is caught.
\<close>

theorem parse_amount_examples:
  "parse_amount ''1.234,56'' = round_to_double (123456 / 100) \<and>
   parse_amount ''123,45'' = round_to_double (12345 / 100) \<and>
   parse_amount ''(500,00)'' = Fin (- 500) \<and>
   parse_amount ''-500,00'' = Fin (- 500) \<and>
   parse_amount [] = Fin 0 \<and>
   parse_amount ''abc'' = Fin 0 \<and>
   (py_float (amount_text text0) = None \<longrightarrow> parse_amount text0 = Fin 0)"
proof -
  have "parse_amount ''1.234,56'' = round_to_double (123456 / 100)" by code_simp
  moreover have "parse_amount ''123,45'' = round_to_double (12345 / 100)" by code_simp
  moreover have "parse_amount ''(500,00)'' = Fin (- 500)" by code_simp
  moreover have "parse_amount ''-500,00'' = Fin (- 500)" by code_simp
  moreover have "parse_amount [] = Fin 0" by (simp add: parse_amount_def)
  moreover have "parse_amount ''abc'' = Fin 0" by code_simp
  moreover have "py_float (amount_text text0) = None \<longrightarrow> parse_amount text0 = Fin 0"
    by (simp add: parse_amount_def)
  ultimately show ?thesis by (intro conjI)
qed

theorem parse_amount_examples_witness:
  "py_float (amount_text ''12 34'') = None \<and> parse_amount ''12 34'' = Fin 0"
proof -
  have h: "py_float (amount_text ''12 34'') = None" by code_simp
  then show ?thesis using parse_amount_examples [of "''12 34''"] by simp
qed

subsection \<open>A period without a comma\<close>

lemma drop_underscores_absent:
  "CHR ''_'' \<notin> set s \<Longrightarrow> prev \<noteq> CHR ''_'' \<Longrightarrow> drop_underscores prev s = Some s"
  by (induction s arbitrary: prev) auto

lemma lower_char_decimal: "is_digit c \<or> c = CHR ''.'' \<Longrightarrow> lower_char c = c"
  unfolding is_digit_def by (elim disjE | simp add: lower_char_def)+

lemma lower_decimal: "\<forall>c \<in> set s. is_digit c \<or> c = CHR ''.'' \<Longrightarrow> lower s = s"
  by (induction s) (auto simp: lower_def lower_char_decimal)

lemma not_decimal_chars:
  "\<not> (is_digit CHR ''_'' \<or> CHR ''_'' = CHR ''.'')"
  "\<not> (is_digit CHR ''i'' \<or> CHR ''i'' = CHR ''.'')"
  "\<not> (is_digit CHR ''n'' \<or> CHR ''n'' = CHR ''.'')"
  "\<not> (is_digit CHR ''-'' \<or> CHR ''-'' = CHR ''.'')"
  "\<not> (is_digit CHR ''+'' \<or> CHR ''+'' = CHR ''.'')"
  "\<not> (is_digit CHR ''('' \<or> CHR ''('' = CHR ''.'')"
  "\<not> (is_digit CHR '')'' \<or> CHR '')'' = CHR ''.'')"
  "\<not> (is_digit CHR '','' \<or> CHR '','' = CHR ''.'')"
  by (simp_all add: is_digit_def)

lemma parse_decimal_point:
  assumes "list_all is_digit ds1" and "list_all is_digit ds2" and "ds1 @ ds2 \<noteq> []"
  shows "parse_decimal (ds1 @ ''.'' @ ds2) =
           Some (of_int (digits_value (ds1 @ ds2)) / 10 ^ length ds2)"
proof -
  have nd: "\<not> is_digit CHR ''.''" by (simp add: is_digit_def)
  have t1: "takeWhile is_digit (ds1 @ CHR ''.'' # ds2) = ds1"
    using assms(1) nd by (simp add: list_all_iff)
  have d1: "dropWhile is_digit (ds1 @ CHR ''.'' # ds2) = CHR ''.'' # ds2"
    using assms(1) nd by (simp add: list_all_iff)
  have t2: "takeWhile is_digit ds2 = ds2" using assms(2) by (simp add: list_all_iff)
  have d2: "dropWhile is_digit ds2 = []" using assms(2) by (simp add: list_all_iff)
  have "pow10 (0 - int (length ds2)) = 1 / 10 ^ length ds2"
    by (simp add: pow10_def)
  then show ?thesis
    using assms(3)
    by (simp add: parse_decimal_def Let_def t1 d1 t2 d2 parse_exponent_def del: append_is_Nil_conv)
qed

lemma py_float_point:
  assumes "list_all is_digit ds1" and "list_all is_digit ds2" and "ds1 @ ds2 \<noteq> []"
  shows "py_float (ds1 @ ''.'' @ ds2) =
           Some (round_to_double (of_int (digits_value (ds1 @ ds2)) / 10 ^ length ds2))"
proof -
  let ?s = "ds1 @ ''.'' @ ds2"
  have dc: "\<forall>c \<in> set ?s. is_digit c \<or> c = CHR ''.''"
    using assms(1,2) by (auto simp: list_all_iff)
  then have ns: "\<forall>c \<in> set ?s. \<not> is_space c"
    using digit_not_space point_not_space by blast
  have nu: "CHR ''_'' \<notin> set ?s" using dc not_decimal_chars(1) by blast
  have st: "c_strip ?s = ?s" using ns by (rule c_strip_no_space)
  have du: "drop_underscores (CHR 0x00) ?s = Some ?s"
    using nu by (rule drop_underscores_absent) simp
  have lo: "lower ?s = ?s" using dc by (rule lower_decimal)
  have sp: "CHR ''i'' \<notin> set ?s" "CHR ''n'' \<notin> set ?s"
    using dc not_decimal_chars(2,3) by blast+
  have ni: "?s \<noteq> ''inf''" "?s \<noteq> ''infinity''" "?s \<noteq> ''nan''"
    using sp by (metis list.set_intros(1))+
  have pu: "parse_unsigned ?s =
      Some (round_to_double (of_int (digits_value (ds1 @ ds2)) / 10 ^ length ds2))"
    unfolding parse_unsigned_def lo using ni parse_decimal_point [OF assms] by simp
  obtain c t where ct: "?s = c # t" by (cases ?s) auto
  then have "c \<in> set ?s" by (metis list.set_intros(1))
  with dc have "c \<noteq> CHR ''-''" "c \<noteq> CHR ''+''" using not_decimal_chars(4,5) by blast+
  then show ?thesis
    unfolding py_float_def st du using ct pu by simp
qed

lemma amount_text_no_comma:
  assumes "CHR '','' \<notin> set text0"
  shows "amount_text text0 =
           strip (replace CHR ''-'' [] (replace CHR '')'' [] (replace CHR ''('' [] (strip text0))))"
proof -
  let ?t = "strip (replace CHR ''-'' [] (replace CHR '')'' [] (replace CHR ''('' [] (strip text0))))"
  have "set ?t \<subseteq> set (replace CHR ''-'' [] (replace CHR '')'' [] (replace CHR ''('' [] (strip text0))))"
    by (rule set_strip)
  also have "\<dots> \<subseteq> set (replace CHR '')'' [] (replace CHR ''('' [] (strip text0)))"
    by (rule replace_delete_set)
  also have "\<dots> \<subseteq> set (replace CHR ''('' [] (strip text0))"
    by (rule replace_delete_set)
  also have "\<dots> \<subseteq> set (strip text0)"
    by (rule replace_delete_set)
  also have "\<dots> \<subseteq> set text0"
    by (rule set_strip)
  finally have "CHR '','' \<notin> set ?t" using assms by auto
  then show ?thesis by (simp add: amount_text_def Let_def)
qed

lemma parse_amount_point:
  assumes "list_all is_digit ds1" and "list_all is_digit ds2" and "ds1 @ ds2 \<noteq> []"
  shows "parse_amount (ds1 @ ''.'' @ ds2) =
           round_to_double (of_int (digits_value (ds1 @ ds2)) / 10 ^ length ds2)"
proof -
  let ?s = "ds1 @ ''.'' @ ds2"
  have dc: "\<forall>c \<in> set ?s. is_digit c \<or> c = CHR ''.''"
    using assms(1,2) by (auto simp: list_all_iff)
  then have ns: "\<forall>c \<in> set ?s. \<not> is_space c"
    using digit_not_space point_not_space by blast
  have st: "strip ?s = ?s" using ns by (rule strip_no_space)
  have ab: "CHR ''('' \<notin> set ?s" "CHR '')'' \<notin> set ?s" "CHR ''-'' \<notin> set ?s" "CHR '','' \<notin> set ?s"
    using dc not_decimal_chars(4,6,7,8) by blast+
  have at: "amount_text ?s = ?s"
    unfolding amount_text_no_comma [OF ab(4)] st
    by (simp only: replace_absent [OF ab(1)] replace_absent [OF ab(2)] replace_absent [OF ab(3)] st)
  obtain c t where ct: "?s = c # t" by (cases ?s) auto
  then have "c \<in> set ?s" by (metis list.set_intros(1))
  with ab have "c \<noteq> CHR ''-''" "c \<noteq> CHR ''(''" by auto
  then have neg: "\<not> (startswith ''-'' ?s \<or> startswith ''('' ?s)"
    unfolding ct by simp
  have ne: "?s \<noteq> []" by simp
  show ?thesis
    unfolding parse_amount_def st at py_float_point [OF assms]
    using neg ne by (simp only: Let_def if_False option.case simp_thms)
qed

text \<open>
  C9. In a text with a period and no comma the period is not removed: it reaches \<^verbatim>\<open>float\<close>,
  which reads it as the decimal point. Digits, a period and digits are parsed to the number
  whose integer part stands before the period and whose fraction stands after it, so
  \<^verbatim>\<open>1.234\<close> is \<open>1.234\<close> and not \<open>1234.0\<close>.
\<close>

theorem period_is_the_decimal_point:
  "(CHR '','' \<notin> set text0 \<longrightarrow>
      amount_text text0 =
        strip (replace CHR ''-'' [] (replace CHR '')'' [] (replace CHR ''('' [] (strip text0))))) \<and>
   (list_all is_digit ds1 \<and> list_all is_digit ds2 \<and> ds1 @ ds2 \<noteq> [] \<longrightarrow>
      parse_amount (ds1 @ ''.'' @ ds2) =
        round_to_double (of_int (digits_value (ds1 @ ds2)) / 10 ^ length ds2))"
  using amount_text_no_comma [of text0] parse_amount_point [of ds1 ds2] by blast

theorem period_is_the_decimal_point_witness:
  "parse_amount ''1.234'' = round_to_double (1234 / 1000) \<and>
   round_to_double (1234 / 1000) \<noteq> round_to_double 1234"
proof -
  have d: "list_all is_digit ''1'' \<and> list_all is_digit ''234'' \<and> ''1'' @ ''234'' \<noteq> []"
    by code_simp
  have v: "digits_value (''1'' @ ''234'') = 1234" by code_simp
  have "round_to_double (1234 / 1000) \<noteq> round_to_double 1234" by code_simp
  then show ?thesis
    using period_is_the_decimal_point [of "''1.234''" "''1''" "''234''"] d v by simp
qed

subsection \<open>The current balance\<close>

lemma lower_saldo_actual: "lower ''SALDO ACTUAL'' = ''saldo actual''"
  by code_simp

text \<open>The label is read in lower case too.\<close>

lemma lower_case_label_is_read:
  "extract_saldo_actual ''saldo actual $ 1,00 u$s 2,00'' = (Fin 1, Fin 2)"
  by code_simp

lemma match_saldo_actual_label:
  assumes "match_saldo_actual s = Some g"
  shows "\<exists>w v. s = w @ v \<and> lower w = ''saldo actual''"
proof -
  from assms obtain r where "skip_literal ''SALDO ACTUAL'' s = Some r"
    by (auto simp: match_saldo_actual_def split: option.splits)
  from skip_literal_Some [OF this] show ?thesis
    unfolding lower_saldo_actual by blast
qed

text \<open>
  C8. When the label \<^verbatim>\<open>SALDO ACTUAL\<close> occurs nowhere in the text of the first page (the
  extractor reads it in any mix of upper and lower case), both balances are \<open>0.0\<close>. Nothing
  is raised: the extractor only searches the text and parses what it finds.
\<close>

theorem no_label_no_balance:
  assumes "\<not> (\<exists>u w v. text0 = u @ w @ v \<and> lower w = ''saldo actual'')"
  shows "extract_saldo_actual text0 = (Fin 0, Fin 0)"
proof (cases "re_search match_saldo_actual text0")
  case None
  then show ?thesis by (simp add: extract_saldo_actual_def)
next
  case (Some g)
  from re_search_Some [OF Some] obtain u s
    where t: "text0 = u @ s" and m: "match_saldo_actual s = Some g" by auto
  from match_saldo_actual_label [OF m] obtain w v
    where s: "s = w @ v" and w: "lower w = ''saldo actual''" by auto
  from t s have "text0 = u @ w @ v" by simp
  with w have "\<exists>u w v. text0 = u @ w @ v \<and> lower w = ''saldo actual''" by (intro exI conjI)
  with assms show ?thesis by (rule notE)
qed

theorem no_label_no_balance_witness:
  "extract_saldo_actual ''SALDO PENDIENTE 160594,67 0,00'' = (Fin 0, Fin 0)"
proof -
  have "\<not> contains ''saldo actual'' (lower ''SALDO PENDIENTE 160594,67 0,00'')" by code_simp
  then have "\<not> (\<exists>u w v. ''SALDO PENDIENTE 160594,67 0,00'' = u @ w @ v \<and> lower w = ''saldo actual'')"
    by (auto dest: label_contains)
  then show ?thesis by (rule no_label_no_balance)
qed

subsection \<open>The coupon\<close>

lemma match_number_separator:
  "match_number s = Some m \<Longrightarrow> CHR ''.'' \<in> set m \<or> CHR '','' \<in> set m"
  by (cases "dropWhile is_digit (drop (length (if startswith ''-'' s then ''-'' else [])) s)")
     (auto simp: match_number_def Let_def split: if_splits)

lemma findall_from_separator:
  "m \<in> set (findall_from k s) \<Longrightarrow> CHR ''.'' \<in> set m \<or> CHR '','' \<in> set m"
proof (induction k s rule: findall_from.induct)
  case (1 k)
  then show ?case by simp
next
  case (2 k c cs)
  then show ?case by simp
next
  case (3 c cs)
  show ?case
  proof (cases "match_number (c # cs)")
    case None
    with "3.prems" "3.IH"(1) show ?thesis by simp
  next
    case (Some a)
    with "3.prems" have "m = a \<or> m \<in> set (findall_from (length a - 1) cs)" by simp
    then show ?thesis
    proof
      assume "m = a"
      with Some show ?thesis by (simp add: match_number_separator)
    next
      assume "m \<in> set (findall_from (length a - 1) cs)"
      with "3.IH"(2) [OF Some] show ?thesis .
    qed
  qed
qed

lemma escaped_backslash:
  "CHR ''.'' \<in> set a \<or> CHR '','' \<in> set a \<Longrightarrow> CHR 0x5C \<in> set (escaped a)"
  by (induction a) (auto simp: escaped_def replace_def)

lemma match_coupon_set: "match_coupon lit s = Some g \<Longrightarrow> set lit \<subseteq> set s"
proof -
  assume "match_coupon lit s = Some g"
  then have "startswith lit (dropWhile is_space (drop 6 s))"
    by (simp add: match_coupon_def Let_def skip_spaces_def split: if_splits)
  then have "set lit \<subseteq> set (dropWhile is_space (drop 6 s))" by (rule startswith_set)
  also have "\<dots> \<subseteq> set (drop 6 s)" by (auto dest: set_dropWhileD)
  also have "\<dots> \<subseteq> set s" by (rule set_drop_subset)
  finally show ?thesis .
qed

lemma coupon_needs_backslash:
  assumes "re_search (match_coupon (escaped a)) rest = Some g"
    and "CHR ''.'' \<in> set a \<or> CHR '','' \<in> set a"
  shows "CHR 0x5C \<in> set rest"
proof -
  from re_search_Some [OF assms(1)] obtain u v
    where r: "rest = u @ v" and m: "match_coupon (escaped a) v = Some g" by auto
  have "CHR 0x5C \<in> set (escaped a)" using assms(2) by (rule escaped_backslash)
  with match_coupon_set [OF m] have "CHR 0x5C \<in> set v" by auto
  with r show ?thesis by simp
qed

lemma match_date_rest_set: "match_date s = Some (g1, g2, g3, r) \<Longrightarrow> set r \<subseteq> set s"
  by (auto simp: match_date_def Let_def split: if_splits dest!: in_set_dropD)

lemma match_transaction_line_set:
  assumes "match_transaction_line s = Some (d, g)"
  shows "set g \<subseteq> set s"
proof -
  from assms obtain g1 g2 g3 r where m: "match_date s = Some (g1, g2, g3, r)"
    and g: "g = takeWhile (\<lambda>c. c \<noteq> CHR 0x0A) (skip_spaces r)"
    by (auto simp: match_transaction_line_def Let_def split: option.splits if_splits)
  have "set g \<subseteq> set r"
    unfolding g skip_spaces_def by (auto dest: set_takeWhileD set_dropWhileD)
  with match_date_rest_set [OF m] show ?thesis by auto
qed

text \<open>
  C1 fails on the code. The pattern that looks for the coupon is built from the amount with a
  backslash put before its separator, and \<^verbatim>\<open>re.escape\<close> then makes the pattern match
  that backslash as a character. So the coupon is found only in a line that has a backslash
  in it; in every other line the transaction has the empty \<open>coupon_number\<close>, also when a
  standalone 5-digit token stands before the amount, as in the line
  \<^verbatim>\<open>30-Nov-25 PUPPIS 02842 46500,00\<close> of the parser's own documentation.
\<close>

theorem coupon_is_empty_without_backslash:
  assumes "parse_transaction_line line = Some t" and "CHR 0x5C \<notin> set line"
  shows "coupon_number t = []"
proof -
  from assms(1) obtain d g where m: "match_transaction_line (strip line) = Some (d, g)"
    by (auto simp: parse_transaction_line_def split: if_splits option.splits)
  let ?rest = "strip g"
  let ?a = "last (findall_numbers ?rest)"
  have "set ?rest \<subseteq> set line"
    using match_transaction_line_set [OF m] set_strip [of g] set_strip [of line] by blast
  with assms(2) have nb: "CHR 0x5C \<notin> set ?rest" by auto
  from assms(1) m have ne: "findall_numbers ?rest \<noteq> []"
    by (auto simp: parse_transaction_line_def Let_def split: if_splits option.splits)
  then have "?a \<in> set (findall_from 0 ?rest)" by (simp add: findall_numbers_def)
  then have "CHR ''.'' \<in> set ?a \<or> CHR '','' \<in> set ?a" by (rule findall_from_separator)
  with nb have "re_search (match_coupon (escaped ?a)) ?rest = None"
    using coupon_needs_backslash [of ?a ?rest] by (cases "re_search (match_coupon (escaped ?a)) ?rest") auto
  with assms(1) m ne show ?thesis
    by (auto simp: parse_transaction_line_def Let_def split: if_splits option.splits)
qed

theorem coupon_is_empty_without_backslash_witness:
  "parse_transaction_line ''30-Nov-25 PUPPIS 02842 46500,00'' =
     Some \<lparr>date = \<lparr>dt_year = 2025, dt_month = 11, dt_day = 30\<rparr>, merchant = ''PUPPIS'',
           coupon_number = [], amount_pesos = Fin 46500, amount_dollars = Fin 0,
           is_dollar = False\<rparr> \<and>
   coupon_number \<lparr>date = \<lparr>dt_year = 2025, dt_month = 11, dt_day = 30\<rparr>, merchant = ''PUPPIS'',
           coupon_number = [], amount_pesos = Fin 46500, amount_dollars = Fin 0,
           is_dollar = False\<rparr> = []"
  using coupon_is_empty_without_backslash [OF line_puppis line_puppis_shape] line_puppis
  by simp

subsection \<open>Rounding to a double\<close>

lemma pow2_powi: "pow2 e = 2 powi e"
  by (simp add: pow2_def power_int_def power_one_over)

lemma pow2_pos: "0 < pow2 e"
  by (simp add: pow2_powi)

lemma pow2_add: "pow2 (i + j) = pow2 i * pow2 j"
  by (simp add: pow2_powi power_int_add)

lemma pow2_mono: "i \<le> j \<Longrightarrow> pow2 i \<le> pow2 j"
  by (simp add: pow2_powi power_int_increasing)

lemma pow2_strict_mono: "i < j \<Longrightarrow> pow2 i < pow2 j"
  by (simp add: pow2_powi power_int_strict_increasing)

lemma pow2_nat: "pow2 (int n) = 2 ^ n"
  by (simp add: pow2_def)

lemma pow2_Suc: "pow2 (e + 1) = 2 * pow2 e"
proof -
  have "pow2 1 = 2" by (simp add: pow2_def)
  then show ?thesis by (simp add: pow2_add)
qed

lemma ilog2_bounds:
  "1 \<le> n \<Longrightarrow> 0 \<le> ilog2 n \<and> 2 ^ nat (ilog2 n) \<le> n \<and> n < 2 * 2 ^ nat (ilog2 n)"
proof (induction n rule: ilog2.induct)
  case (1 n)
  show ?case
  proof (cases "n < 2")
    case True
    with "1.prems" have "n = 1" by simp
    then show ?thesis by (simp add: ilog2.simps)
  next
    case False
    then have m: "1 \<le> n div 2" by simp
    from "1.IH" [OF False m]
    have k: "0 \<le> ilog2 (n div 2)" and lo: "2 ^ nat (ilog2 (n div 2)) \<le> n div 2"
      and hi: "n div 2 < 2 * 2 ^ nat (ilog2 (n div 2))" by simp_all
    have e: "ilog2 n = ilog2 (n div 2) + 1" using False by (subst ilog2.simps) simp
    have p: "(2::int) ^ nat (ilog2 (n div 2) + 1) = 2 * 2 ^ nat (ilog2 (n div 2))"
      using k by (simp add: nat_add_distrib)
    have "2 * (n div 2) \<le> n" by simp
    with lo have a: "2 * 2 ^ nat (ilog2 (n div 2)) \<le> n" by linarith
    have "n < 2 * (n div 2) + 2" by simp
    with hi have b: "n < 2 * (2 * 2 ^ nat (ilog2 (n div 2)))" by linarith
    from k a b show ?thesis unfolding e p by simp
  qed
qed

lemma ilog2_pow2_bounds:
  assumes "1 \<le> n"
  shows "pow2 (ilog2 n) \<le> of_int n \<and> of_int n < pow2 (ilog2 n + 1)"
proof -
  from ilog2_bounds [OF assms]
  have k: "0 \<le> ilog2 n" and lo: "2 ^ nat (ilog2 n) \<le> n" and hi: "n < 2 * 2 ^ nat (ilog2 n)"
    by simp_all
  have p: "pow2 (ilog2 n) = of_int (2 ^ nat (ilog2 n))" using k by (simp add: pow2_def)
  have q: "pow2 (ilog2 n + 1) = of_int (2 * 2 ^ nat (ilog2 n))"
    unfolding pow2_Suc p by simp
  show ?thesis unfolding p q using lo hi by (simp only: of_int_le_iff of_int_less_iff)
qed

lemma floor_log2_bounds:
  assumes "0 < a"
  shows "pow2 (floor_log2 a) \<le> a \<and> a < pow2 (floor_log2 a + 1)"
proof (cases "1 \<le> a")
  case True
  then have n: "1 \<le> \<lfloor>a\<rfloor>" by simp
  from ilog2_pow2_bounds [OF n]
  have lo: "pow2 (ilog2 \<lfloor>a\<rfloor>) \<le> of_int \<lfloor>a\<rfloor>" and hi: "of_int \<lfloor>a\<rfloor> < pow2 (ilog2 \<lfloor>a\<rfloor> + 1)"
    by simp_all
  have "of_int \<lfloor>a\<rfloor> \<le> a" by simp
  with lo have l: "pow2 (ilog2 \<lfloor>a\<rfloor>) \<le> a" by linarith
  from ilog2_bounds [OF n] have k: "0 \<le> ilog2 \<lfloor>a\<rfloor>" by simp
  have "pow2 (ilog2 \<lfloor>a\<rfloor> + 1) = of_int (2 ^ nat (ilog2 \<lfloor>a\<rfloor> + 1))"
    using k by (simp add: pow2_def)
  with hi have "\<lfloor>a\<rfloor> < 2 ^ nat (ilog2 \<lfloor>a\<rfloor> + 1)" by (simp only: of_int_less_iff)
  then have "a < of_int (2 ^ nat (ilog2 \<lfloor>a\<rfloor> + 1))" by (simp only: floor_less_iff)
  then have h: "a < pow2 (ilog2 \<lfloor>a\<rfloor> + 1)" using k by (simp add: pow2_def)
  from l h True show ?thesis by (simp add: floor_log2_def)
next
  case False
  let ?b = "1 / a"
  let ?m = "\<lceil>?b\<rceil> - 1"
  from False assms have b1: "1 < ?b" by simp
  then have m: "1 \<le> ?m" by (simp add: less_ceiling_iff)
  from ilog2_pow2_bounds [OF m]
  have lo: "pow2 (ilog2 ?m) \<le> of_int ?m" and hi: "of_int ?m < pow2 (ilog2 ?m + 1)" by simp_all
  from ilog2_bounds [OF m] have k: "0 \<le> ilog2 ?m" by simp
  have "of_int ?m < ?b" using ceiling_correct [of ?b] by simp
  with lo have l: "pow2 (ilog2 ?m) < ?b" by linarith
  have "pow2 (ilog2 ?m + 1) = of_int (2 ^ nat (ilog2 ?m + 1))" using k by (simp add: pow2_def)
  with hi have "?m < 2 ^ nat (ilog2 ?m + 1)" by (simp only: of_int_less_iff)
  then have "\<lceil>?b\<rceil> \<le> 2 ^ nat (ilog2 ?m + 1)" by simp
  then have "?b \<le> of_int (2 ^ nat (ilog2 ?m + 1))" by (simp only: ceiling_le_iff)
  then have h: "?b \<le> pow2 (ilog2 ?m + 1)" using k by (simp add: pow2_def)
  have inv: "pow2 (- e) = 1 / pow2 e" for e
    by (simp add: pow2_powi power_int_minus_divide)
  from h assms have "1 / pow2 (ilog2 ?m + 1) \<le> a"
    using pow2_pos [of "ilog2 ?m + 1"] by (simp add: field_simps)
  then have A: "pow2 (- (ilog2 ?m + 1)) \<le> a" by (simp only: inv)
  from l assms have "a < 1 / pow2 (ilog2 ?m)"
    using pow2_pos [of "ilog2 ?m"] by (simp add: field_simps)
  then have B: "a < pow2 (- (ilog2 ?m + 1) + 1)" using inv [of "ilog2 ?m"] by simp
  from A B False show ?thesis by (simp add: floor_log2_def)
qed

lemma floor_log2_unique:
  assumes "0 < a" and "pow2 k \<le> a" and "a < pow2 (k + 1)"
  shows "floor_log2 a = k"
proof (rule antisym)
  from floor_log2_bounds [OF assms(1)]
  have lo: "pow2 (floor_log2 a) \<le> a" and hi: "a < pow2 (floor_log2 a + 1)" by simp_all
  show "floor_log2 a \<le> k"
  proof (rule ccontr)
    assume "\<not> floor_log2 a \<le> k"
    then have "k + 1 \<le> floor_log2 a" by simp
    then have "pow2 (k + 1) \<le> pow2 (floor_log2 a)" by (rule pow2_mono)
    with lo assms(3) show False by linarith
  qed
  show "k \<le> floor_log2 a"
  proof (rule ccontr)
    assume "\<not> k \<le> floor_log2 a"
    then have "floor_log2 a + 1 \<le> k" by simp
    then have "pow2 (floor_log2 a + 1) \<le> pow2 k" by (rule pow2_mono)
    with hi assms(2) show False by linarith
  qed
qed

lemma floor_log2_scale:
  assumes "0 < a"
  shows "floor_log2 (a * pow2 k) = floor_log2 a + k"
proof (rule floor_log2_unique)
  from floor_log2_bounds [OF assms]
  have lo: "pow2 (floor_log2 a) \<le> a" and hi: "a < pow2 (floor_log2 a + 1)" by simp_all
  show "0 < a * pow2 k" using assms pow2_pos [of k] by simp
  show "pow2 (floor_log2 a + k) \<le> a * pow2 k"
    using lo pow2_pos [of k] by (simp add: pow2_add)
  have "a * pow2 k < pow2 (floor_log2 a + 1) * pow2 k"
    using hi pow2_pos [of k] by simp
  then show "a * pow2 k < pow2 (floor_log2 a + k + 1)"
    by (simp add: pow2_add mult.commute mult.left_commute)
qed

lemma floor_log2_of_int:
  assumes "1 \<le> n"
  shows "floor_log2 (of_int n) = ilog2 n"
proof (rule floor_log2_unique)
  show "0 < (of_int n :: rat)" using assms by simp
  show "pow2 (ilog2 n) \<le> of_int n" "of_int n < pow2 (ilog2 n + 1)"
    using ilog2_pow2_bounds [OF assms] by simp_all
qed

lemma round_half_even_of_int: "round_half_even (of_int k) = k"
  by (simp add: round_half_even_def)

lemma round_half_even_lower: "\<lfloor>x\<rfloor> \<le> round_half_even x"
  by (simp add: round_half_even_def Let_def)

lemma round_half_even_upper: "round_half_even x \<le> \<lceil>x\<rceil>"
proof (cases "x = of_int \<lfloor>x\<rfloor>")
  case True
  then have "round_half_even x = \<lfloor>x\<rfloor>"
    by (metis round_half_even_of_int)
  then show ?thesis by simp
next
  case False
  then have "\<lceil>x\<rceil> = \<lfloor>x\<rfloor> + 1" by (simp add: ceiling_altdef)
  then show ?thesis by (simp add: round_half_even_def Let_def)
qed

lemma round_to_double_neg: "round_to_double (- r) = fneg (round_to_double r)"
  by (simp add: round_to_double_def Let_def)

lemma round_to_double_zero: "round_to_double 0 = Fin 0"
  by (simp add: round_to_double_def)

text \<open>The significand of a rounded value has at most 53 bits.\<close>

lemma significand_bound:
  assumes "0 < a" and "floor_log2 a - 52 \<le> q"
  shows "0 \<le> round_half_even (a / pow2 q) \<and> round_half_even (a / pow2 q) \<le> 2 ^ 53"
proof -
  let ?x = "a / pow2 q"
  have "0 \<le> ?x" using assms(1) pow2_pos [of q] by simp
  then have "0 \<le> \<lfloor>?x\<rfloor>" by simp
  with round_half_even_lower [of ?x] have lo: "0 \<le> round_half_even ?x" by linarith
  from floor_log2_bounds [OF assms(1)] have "a < pow2 (floor_log2 a + 1)" by simp
  also have "pow2 (floor_log2 a + 1) \<le> pow2 (q + 53)" using assms(2) by (intro pow2_mono) simp
  also have "pow2 (q + 53) = pow2 q * 2 ^ 53"
  proof -
    have "pow2 53 = 2 ^ 53" by (simp add: pow2_def)
    then show ?thesis by (simp add: pow2_add)
  qed
  finally have "?x < 2 ^ 53" using pow2_pos [of q] by (simp add: field_simps)
  then have "?x \<le> of_int (2 ^ 53)" by simp
  then have "\<lceil>?x\<rceil> \<le> 2 ^ 53" by (simp only: ceiling_le_iff)
  with round_half_even_upper [of ?x] have "round_half_even ?x \<le> 2 ^ 53" by linarith
  with lo show ?thesis by simp
qed

lemma ilog2_le_52:
  assumes "1 \<le> n" and "n < 2 ^ 53"
  shows "ilog2 n \<le> 52"
proof (rule ccontr)
  assume "\<not> ilog2 n \<le> 52"
  then have "53 \<le> ilog2 n" by simp
  then have "pow2 53 \<le> pow2 (ilog2 n)" by (rule pow2_mono)
  also have "\<dots> \<le> of_int n" using ilog2_pow2_bounds [OF assms(1)] by simp
  finally have "(2::rat) ^ 53 \<le> of_int n" by (simp add: pow2_def)
  then have "(of_int (2 ^ 53) :: rat) \<le> of_int n" by simp
  then have "2 ^ 53 \<le> n" by (simp only: of_int_le_iff)
  with assms(2) show False by simp
qed

lemma ilog2_2_53: "ilog2 (2 ^ 53) = 53"
  by code_simp

text \<open>A value with a significand of at most 53 bits and an exponent of at least \<open>-1074\<close> is
  rounded to itself, unless it is too large.\<close>

lemma round_representable:
  assumes n: "1 \<le> n" "n \<le> 2 ^ 53" and q: "- 1074 \<le> q"
    and fin: "\<not> 1024 \<le> floor_log2 (of_int n * pow2 q)"
  shows "round_to_double (of_int n * pow2 q) = Fin (of_int n * pow2 q)"
proof -
  define v :: rat where "v = of_int n * pow2 q"
  define q' where "q' = max (floor_log2 v - 52) (- 1074)"
  have pos: "0 < v" unfolding v_def using n(1) pow2_pos [of q] by simp
  have e: "floor_log2 v = ilog2 n + q"
    unfolding v_def
    using floor_log2_scale [of "of_int n" q] floor_log2_of_int [OF n(1)] n(1) by simp
  have "\<exists>k. v = of_int k * pow2 q'"
  proof (cases "n = 2 ^ 53")
    case True
    have "ilog2 n = 53" unfolding True by (rule ilog2_2_53)
    with e q have "q' = q + 1" by (simp add: q'_def)
    then have "v = of_int (2 ^ 52) * pow2 q'"
      unfolding v_def True by (simp add: pow2_Suc)
    then show ?thesis by blast
  next
    case False
    with n(2) have "n < 2 ^ 53" by simp
    with n(1) have "ilog2 n \<le> 52" by (rule ilog2_le_52)
    with e q have le: "q' \<le> q" by (simp add: q'_def)
    then obtain d where d: "q = q' + int d"
      by (metis zle_iff_zadd)
    have "pow2 q = pow2 q' * 2 ^ d"
      unfolding d by (simp add: pow2_add pow2_nat)
    then have "v = of_int (n * 2 ^ d) * pow2 q'"
      unfolding v_def by simp
    then show ?thesis by blast
  qed
  then obtain k where k: "v = of_int k * pow2 q'" by auto
  have "v / pow2 q' = of_int k"
    unfolding k using pow2_pos [of q'] by simp
  then have "of_int (round_half_even (v / pow2 q')) * pow2 q' = v"
    by (simp add: round_half_even_of_int k)
  then have "round_to_double v = Fin v"
    using pos fin unfolding v_def [symmetric] q'_def by (simp add: round_to_double_def Let_def)
  then show ?thesis unfolding v_def .
qed

lemma round_to_double_fixpoint_pos:
  assumes "0 < r" and "round_to_double r = Fin v"
  shows "round_to_double v = Fin v"
proof -
  let ?q = "max (floor_log2 r - 52) (- 1074)"
  let ?n = "round_half_even (r / pow2 ?q)"
  from assms have v: "v = of_int ?n * pow2 ?q"
    and fin: "\<not> (0 < of_int ?n * pow2 ?q \<and> 1024 \<le> floor_log2 (of_int ?n * pow2 ?q))"
    by (auto simp: round_to_double_def Let_def split: if_splits)
  from significand_bound [OF assms(1), of ?q]
  have n: "0 \<le> ?n" "?n \<le> 2 ^ 53" by simp_all
  show ?thesis
  proof (cases "?n = 0")
    case True
    with v show ?thesis by (simp add: round_to_double_zero)
  next
    case False
    with n(1) have n1: "1 \<le> ?n" by simp
    then have "0 < (of_int ?n :: rat) * pow2 ?q" using pow2_pos [of ?q] by simp
    with fin have "\<not> 1024 \<le> floor_log2 (of_int ?n * pow2 ?q)" by simp
    with round_representable [OF n1 n(2), of ?q] v show ?thesis by simp
  qed
qed

lemma round_to_double_fixpoint:
  assumes "round_to_double r = Fin v"
  shows "round_to_double v = Fin v"
proof -
  consider "r = 0" | "0 < r" | "r < 0" by linarith
  then show ?thesis
  proof cases
    case 1
    with assms show ?thesis by (simp add: round_to_double_zero)
  next
    case 2
    then show ?thesis using assms by (rule round_to_double_fixpoint_pos)
  next
    case 3
    then have p: "0 < - r" by simp
    from assms have "round_to_double (- r) = Fin (- v)" by (simp add: round_to_double_neg)
    with p have "round_to_double (- v) = Fin (- v)" by (rule round_to_double_fixpoint_pos)
    then have "fneg (round_to_double v) = Fin (- v)" by (simp add: round_to_double_neg)
    then show ?thesis by (cases "round_to_double v") simp_all
  qed
qed

lemma is_double_round: "is_double (round_to_double r)"
  by (cases "round_to_double r") (simp_all add: is_double_def round_to_double_fixpoint)

lemma is_double_fneg: "is_double x \<Longrightarrow> is_double (fneg x)"
  by (cases x) (simp_all add: is_double_def round_to_double_neg)

lemma is_double_zero: "is_double (Fin 0)"
  by (simp add: is_double_def round_to_double_zero)

lemma parse_unsigned_double: "parse_unsigned s = Some x \<Longrightarrow> is_double x"
  by (auto simp: parse_unsigned_def is_double_round split: if_splits) (simp_all add: is_double_def)

lemma py_float_double: "py_float s = Some x \<Longrightarrow> is_double x"
  by (auto simp: py_float_def parse_unsigned_double is_double_fneg
      split: option.splits list.splits if_splits)

lemma parse_amount_double: "is_double (parse_amount s)"
  by (auto simp: parse_amount_def Let_def is_double_zero py_float_double is_double_fneg
      split: option.splits)

subsection \<open>The taxes of a statement\<close>

lemma extract_saldo_pendiente_double:
  "is_double (fst (extract_saldo_pendiente s))"
  "is_double (snd (extract_saldo_pendiente s))"
  by (auto simp: extract_saldo_pendiente_def is_double_zero parse_amount_double
      split: option.splits)

lemma residual_zero:
  assumes "is_double (Fin p)" and "s = t + p"
  shows "fsub (fsub (Fin s) (Fin t)) (Fin p) = Fin 0"
proof -
  from assms(1) have r: "round_to_double p = Fin p" by (simp add: is_double_def)
  have "fsub (Fin s) (Fin t) = round_to_double p" using assms(2) by (simp add: fsub_def)
  then show ?thesis by (simp add: r fsub_def round_to_double_zero)
qed

lemma statement_fields:
  "impuestos_pesos (parse_mastercard_pdf pages) =
     fsub (fsub (saldo_actual_pesos (parse_mastercard_pdf pages))
                (total_transactions_pesos (parse_mastercard_pdf pages)))
          (saldo_pendiente_pesos (parse_mastercard_pdf pages))"
  "impuestos_dolares (parse_mastercard_pdf pages) =
     fsub (fsub (saldo_actual_dolares (parse_mastercard_pdf pages))
                (total_transactions_dolares (parse_mastercard_pdf pages)))
          (saldo_pendiente_dolares (parse_mastercard_pdf pages))"
  "total_transactions_pesos (parse_mastercard_pdf pages) =
     py_sum (map amount_pesos (transactions (parse_mastercard_pdf pages)))"
  "total_transactions_dolares (parse_mastercard_pdf pages) =
     py_sum (map amount_dollars (transactions (parse_mastercard_pdf pages)))"
  by (simp_all add: parse_mastercard_pdf_def Let_def)

lemma statement_pendiente_double:
  "is_double (saldo_pendiente_pesos (parse_mastercard_pdf pages))"
  "is_double (saldo_pendiente_dolares (parse_mastercard_pdf pages))"
  by (auto simp: parse_mastercard_pdf_def Let_def is_double_zero extract_saldo_pendiente_double
      split: option.splits list.splits)

text \<open>
  C4, as the code has it. The two tax figures are the declared current balance minus the sum
  of the amounts of the collected transactions minus the declared prior balance, each
  subtraction rounded to a double. When the current balance is the sum plus the prior balance
  exactly, with nothing lost to rounding, the figure is exactly \<open>0.0\<close>.
\<close>

theorem taxes_are_the_residual:
  "impuestos_pesos (parse_mastercard_pdf pages) =
     fsub (fsub (saldo_actual_pesos (parse_mastercard_pdf pages))
                (py_sum (map amount_pesos (transactions (parse_mastercard_pdf pages)))))
          (saldo_pendiente_pesos (parse_mastercard_pdf pages)) \<and>
   impuestos_dolares (parse_mastercard_pdf pages) =
     fsub (fsub (saldo_actual_dolares (parse_mastercard_pdf pages))
                (py_sum (map amount_dollars (transactions (parse_mastercard_pdf pages)))))
          (saldo_pendiente_dolares (parse_mastercard_pdf pages)) \<and>
   (saldo_actual_pesos (parse_mastercard_pdf pages) = Fin s \<and>
    py_sum (map amount_pesos (transactions (parse_mastercard_pdf pages))) = Fin t \<and>
    saldo_pendiente_pesos (parse_mastercard_pdf pages) = Fin p \<and> s = t + p \<longrightarrow>
      impuestos_pesos (parse_mastercard_pdf pages) = Fin 0) \<and>
   (saldo_actual_dolares (parse_mastercard_pdf pages) = Fin s' \<and>
    py_sum (map amount_dollars (transactions (parse_mastercard_pdf pages))) = Fin t' \<and>
    saldo_pendiente_dolares (parse_mastercard_pdf pages) = Fin p' \<and> s' = t' + p' \<longrightarrow>
      impuestos_dolares (parse_mastercard_pdf pages) = Fin 0)"
proof (intro conjI impI)
  let ?sd = "parse_mastercard_pdf pages"
  show "impuestos_pesos ?sd =
     fsub (fsub (saldo_actual_pesos ?sd) (py_sum (map amount_pesos (transactions ?sd))))
          (saldo_pendiente_pesos ?sd)"
    by (simp only: statement_fields(1) statement_fields(3))
  show "impuestos_dolares ?sd =
     fsub (fsub (saldo_actual_dolares ?sd) (py_sum (map amount_dollars (transactions ?sd))))
          (saldo_pendiente_dolares ?sd)"
    by (simp only: statement_fields(2) statement_fields(4))
next
  let ?sd = "parse_mastercard_pdf pages"
  assume a: "saldo_actual_pesos ?sd = Fin s \<and>
    py_sum (map amount_pesos (transactions ?sd)) = Fin t \<and>
    saldo_pendiente_pesos ?sd = Fin p \<and> s = t + p"
  then have "is_double (Fin p)" using statement_pendiente_double(1) [of pages] by simp
  with a have "fsub (fsub (Fin s) (Fin t)) (Fin p) = Fin 0" by (intro residual_zero) simp_all
  with a show "impuestos_pesos ?sd = Fin 0"
    by (simp only: statement_fields(1) statement_fields(3))
next
  let ?sd = "parse_mastercard_pdf pages"
  assume a: "saldo_actual_dolares ?sd = Fin s' \<and>
    py_sum (map amount_dollars (transactions ?sd)) = Fin t' \<and>
    saldo_pendiente_dolares ?sd = Fin p' \<and> s' = t' + p'"
  then have "is_double (Fin p')" using statement_pendiente_double(2) [of pages] by simp
  with a have "fsub (fsub (Fin s') (Fin t')) (Fin p') = Fin 0" by (intro residual_zero) simp_all
  with a show "impuestos_dolares ?sd = Fin 0"
    by (simp only: statement_fields(2) statement_fields(4))
qed

lemma statement_netflix:
  "parse_mastercard_pdf
     [Some ''26-Nov-25 NETFLIX.COM 00779 1500,00\<newline>SALDO ACTUAL $ 1500,00 U$S 0,00''] =
   \<lparr>saldo_actual_pesos = Fin 1500, saldo_actual_dolares = Fin 0,
    transactions =
      [\<lparr>date = \<lparr>dt_year = 2025, dt_month = 11, dt_day = 26\<rparr>,
          merchant = ''NETFLIX.COM'', coupon_number = [],
          amount_pesos = Fin 1500, amount_dollars = Fin 0,
          is_dollar = False\<rparr>],
    impuestos_pesos = Fin 0, impuestos_dolares = Fin 0,
    total_transactions_pesos = Fin 1500, total_transactions_dolares = Fin 0,
    saldo_pendiente_pesos = Fin 0, saldo_pendiente_dolares = Fin 0,
    month = 0, year = 0, statement_date = None, proximo_cierre = None,
    proximo_vencimiento = None\<rparr>"
  by code_simp

lemma statement_rounding:
  "parse_mastercard_pdf
     [Some ''SALDO ACTUAL $ 0,40 U$S 0,00\<newline>SALDO PENDIENTE 0,30 0,00\<newline>26-Nov-25 X 0,10''] =
   \<lparr>saldo_actual_pesos = Fin (3602879701896397 / 9007199254740992),
    saldo_actual_dolares = Fin 0,
    transactions =
      [\<lparr>date = \<lparr>dt_year = 2025, dt_month = 11, dt_day = 26\<rparr>,
          merchant = ''X'', coupon_number = [],
          amount_pesos = Fin (3602879701896397 / 36028797018963968),
          amount_dollars = Fin 0, is_dollar = False\<rparr>],
    impuestos_pesos = Fin (1 / 18014398509481984),
    impuestos_dolares = Fin 0,
    total_transactions_pesos = Fin (3602879701896397 / 36028797018963968),
    total_transactions_dolares = Fin 0,
    saldo_pendiente_pesos = Fin (5404319552844595 / 18014398509481984),
    saldo_pendiente_dolares = Fin 0, month = 0, year = 0,
    statement_date = None, proximo_cierre = None,
    proximo_vencimiento = None\<rparr>"
  by code_simp

theorem taxes_are_the_residual_witness:
  "saldo_actual_pesos (parse_mastercard_pdf
     [Some ''26-Nov-25 NETFLIX.COM 00779 1500,00\<newline>SALDO ACTUAL $ 1500,00 U$S 0,00'']) = Fin 1500 \<and>
   py_sum (map amount_pesos (transactions (parse_mastercard_pdf
     [Some ''26-Nov-25 NETFLIX.COM 00779 1500,00\<newline>SALDO ACTUAL $ 1500,00 U$S 0,00'']))) = Fin 1500 \<and>
   saldo_pendiente_pesos (parse_mastercard_pdf
     [Some ''26-Nov-25 NETFLIX.COM 00779 1500,00\<newline>SALDO ACTUAL $ 1500,00 U$S 0,00'']) = Fin 0 \<and>
   impuestos_pesos (parse_mastercard_pdf
     [Some ''26-Nov-25 NETFLIX.COM 00779 1500,00\<newline>SALDO ACTUAL $ 1500,00 U$S 0,00'']) = Fin 0"
proof -
  let ?sd = "parse_mastercard_pdf
     [Some ''26-Nov-25 NETFLIX.COM 00779 1500,00\<newline>SALDO ACTUAL $ 1500,00 U$S 0,00'']"
  have a: "saldo_actual_pesos ?sd = Fin 1500" by (simp add: statement_netflix)
  have "total_transactions_pesos ?sd = Fin 1500" by (simp add: statement_netflix)
  then have b: "py_sum (map amount_pesos (transactions ?sd)) = Fin 1500"
    by (simp only: statement_fields(3))
  have c: "saldo_pendiente_pesos ?sd = Fin 0" by (simp add: statement_netflix)
  have d: "(1500::rat) = 1500 + 0" by simp
  from taxes_are_the_residual [of "[Some ''26-Nov-25 NETFLIX.COM 00779 1500,00\<newline>SALDO ACTUAL $ 1500,00 U$S 0,00'']" 1500 1500 0]
  have "impuestos_pesos ?sd = Fin 0" using a b c d by blast
  with a b c show ?thesis by (intro conjI)
qed

text \<open>
  A statement with the current balance \<^verbatim>\<open>0,40\<close>, the prior balance \<^verbatim>\<open>0,30\<close> and one
  transaction of \<^verbatim>\<open>0,10\<close>: the current balance equals the sum plus the prior balance, as
  decimals and as doubles (\<^verbatim>\<open>0.4 == 0.1 + 0.3\<close>), and the tax figure in pesos is
  \<open>2\<^sup>-\<^sup>5\<^sup>4\<close>, not \<open>0.0\<close>.
\<close>

theorem rounded_residual_counterexample:
  "saldo_actual_pesos (parse_mastercard_pdf
     [Some ''SALDO ACTUAL $ 0,40 U$S 0,00\<newline>SALDO PENDIENTE 0,30 0,00\<newline>26-Nov-25 X 0,10'']) =
     round_to_double (40 / 100) \<and>
   map amount_pesos (transactions (parse_mastercard_pdf
     [Some ''SALDO ACTUAL $ 0,40 U$S 0,00\<newline>SALDO PENDIENTE 0,30 0,00\<newline>26-Nov-25 X 0,10''])) =
     [round_to_double (10 / 100)] \<and>
   saldo_pendiente_pesos (parse_mastercard_pdf
     [Some ''SALDO ACTUAL $ 0,40 U$S 0,00\<newline>SALDO PENDIENTE 0,30 0,00\<newline>26-Nov-25 X 0,10'']) =
     round_to_double (30 / 100) \<and>
   round_to_double (40 / 100) =
     fadd (py_sum [round_to_double (10 / 100)]) (round_to_double (30 / 100)) \<and>
   impuestos_pesos (parse_mastercard_pdf
     [Some ''SALDO ACTUAL $ 0,40 U$S 0,00\<newline>SALDO PENDIENTE 0,30 0,00\<newline>26-Nov-25 X 0,10'']) =
     Fin (1 / 18014398509481984) \<and>
   Fin (1 / 18014398509481984) \<noteq> Fin 0"
proof -
  have "round_to_double (40 / 100) = Fin (3602879701896397 / 9007199254740992)" by code_simp
  moreover have "round_to_double (10 / 100) = Fin (3602879701896397 / 36028797018963968)"
    by code_simp
  moreover have "round_to_double (30 / 100) = Fin (5404319552844595 / 18014398509481984)"
    by code_simp
  moreover have "Fin (3602879701896397 / 9007199254740992) =
     fadd (py_sum [Fin (3602879701896397 / 36028797018963968)])
          (Fin (5404319552844595 / 18014398509481984))"
    by code_simp
  ultimately show ?thesis by (simp add: statement_rounding)
qed

end
